theory Spec2Isabelle
  imports Main "HOL-Library.Word" "HOL-Library.Sublist"
begin

section \<open>Go values used by websocketproxy.go\<close>

text \<open>
  Go's \<open>int\<close> is a 64-bit two's complement integer on the platforms the proxy runs on.
  It is modelled as \<open>int\<close> with the wrap-around of \<open>++\<close> written out.  Go's \<open>%\<close>
  truncates towards zero: the remainder has the sign of the dividend.
\<close>

definition wrap64 :: "int \<Rightarrow> int" where
  "wrap64 x = (x + 2 ^ 63) mod 2 ^ 64 - 2 ^ 63"

definition go_rem :: "int \<Rightarrow> int \<Rightarrow> int" where
  "go_rem a b = sgn a * (\<bar>a\<bar> mod \<bar>b\<bar>)"

text \<open>A run-time panic ends the call; it is a value of the model.\<close>

datatype panic =
    IntnInvalidArgument     \<comment> \<open>\<open>rand.Intn(n)\<close> with \<open>n <= 0\<close>\<close>
  | DivideByZero            \<comment> \<open>\<open>x % 0\<close>\<close>
  | IndexOutOfRange         \<comment> \<open>\<open>w.Backends[index]\<close> outside the slice\<close>

text \<open>
  \<open>rand.New(rand.NewSource(time.Now().UnixNano())).Intn(n)\<close>: a generator seeded by the
  clock yields some value of \<open>[0, n)\<close>, and panics for \<open>n <= 0\<close>.  The clock is outside
  the program, so the value the generator produces is an input \<open>raw\<close> of the model,
  reduced into the range; every value of \<open>[0, n)\<close> is the result for some \<open>raw\<close>.
\<close>

definition Intn :: "nat \<Rightarrow> int \<Rightarrow> panic + int" where
  "Intn raw n = (if n \<le> 0 then Inl IntnInvalidArgument else Inr (int raw mod n))"

datatype error = errors_New string

type_synonym header = "string \<rightharpoonup> string list"

record url =
  Scheme :: string
  Opaque :: string
  User :: "string option"
  Host :: string
  Path :: string
  RawPath :: string
  ForceQuery :: bool
  RawQuery :: string
  Fragment :: string

datatype connection_state = ConnectionState

record request =
  URL :: url
  Header :: header
  RemoteAddr :: string
  TLS :: "connection_state option"

datatype upgrader = WebsocketUpgrader nat nat
datatype dialer = WebsocketDialer nat

definition DefaultUpgrader :: upgrader where
  "DefaultUpgrader = WebsocketUpgrader 1024 1024"

definition DefaultDialer :: dialer where
  "DefaultDialer = WebsocketDialer 0"

section \<open>The proxy\<close>

record proxy =
  Director :: "(request \<Rightarrow> header \<Rightarrow> header) option"
  Backends :: "(request \<Rightarrow> url) list"
  Upgrader :: "upgrader option"
  Dialer :: "dialer option"
  ReqCount :: int
  DesolateBackend :: "int \<rightharpoonup> int"

definition NewProxy :: proxy where
  "NewProxy = \<lparr> Director = None, Backends = [], Upgrader = None, Dialer = None,
                ReqCount = 0, DesolateBackend = Map.empty \<rparr>"

definition getRequestURL :: "url \<Rightarrow> request \<Rightarrow> url" where
  "getRequestURL target r =
     target \<lparr> Fragment := Fragment (URL r), Path := Path (URL r), RawQuery := RawQuery (URL r) \<rparr>"

definition AddBackend :: "url \<Rightarrow> proxy \<Rightarrow> proxy" where
  "AddBackend target w = w \<lparr> Backends := Backends w @ [getRequestURL target] \<rparr>"

subsection \<open>selectBackend\<close>

text \<open>
  The \<open>for\<close> loop of \<open>selectBackend\<close>, with \<open>backendcnt\<close> and the loop variable
  \<open>selectcnt\<close> as arguments.  It returns \<open>index\<close> and the proxy as the loop left it.
  \<open>selectcnt\<close> stays below \<open>backendcnt\<close> where it is incremented, so it cannot overflow;
  \<open>waitcnt\<close> is positive where it is decremented.
\<close>

function selectLoop :: "nat \<Rightarrow> int \<Rightarrow> int \<Rightarrow> proxy \<Rightarrow> panic + (int \<times> proxy)" where
  "selectLoop raw backendcnt selectcnt w =
     (if selectcnt \<ge> backendcnt then
        (case Intn raw backendcnt of
           Inl p \<Rightarrow> Inl p
         | Inr index \<Rightarrow> Inr (index, w))
      else if backendcnt = 0 then Inl DivideByZero
      else
        let w1 = w \<lparr> ReqCount := wrap64 (ReqCount w + 1) \<rparr>;
            index = go_rem (ReqCount w1) backendcnt
        in (case DesolateBackend w1 index of
              Some waitcnt \<Rightarrow>
                if waitcnt \<le> 0 then Inr (index, w1)
                else selectLoop raw backendcnt (selectcnt + 1)
                       (w1 \<lparr> DesolateBackend := (DesolateBackend w1)(index \<mapsto> waitcnt - 1) \<rparr>)
            | None \<Rightarrow> Inr (index, w1)))"
  by pat_completeness auto
termination
  by (relation "measure (\<lambda>(raw, backendcnt, selectcnt, w). nat (backendcnt - selectcnt))") auto

declare selectLoop.simps [simp del]

definition selectBackend :: "nat \<Rightarrow> proxy \<Rightarrow> panic + (int \<times> proxy)" where
  "selectBackend raw w = selectLoop raw (int (length (Backends w))) 0 w"

text \<open>The configuration of a proxy: what selection and dialling leave as it is.\<close>

definition sameConfig :: "proxy \<Rightarrow> proxy \<Rightarrow> bool" where
  "sameConfig w w' \<longleftrightarrow> Backends w' = Backends w \<and> Director w' = Director w \<and>
     Upgrader w' = Upgrader w \<and> Dialer w' = Dialer w"

text \<open>A backend is eligible when it has no skip budget, or one that is not positive.\<close>

definition eligible :: "proxy \<Rightarrow> int \<Rightarrow> bool" where
  "eligible w j = (case DesolateBackend w j of None \<Rightarrow> True | Some waitcnt \<Rightarrow> waitcnt \<le> 0)"

text \<open>Consecutive calls of \<open>selectBackend\<close>, one generator value for each, nothing in between.\<close>

fun selectBackends :: "nat list \<Rightarrow> proxy \<Rightarrow> panic + (int list \<times> proxy)" where
  "selectBackends [] w = Inr ([], w)"
| "selectBackends (raw # raws) w =
     (case selectBackend raw w of
        Inl p \<Rightarrow> Inl p
      | Inr (index, w1) \<Rightarrow>
          (case selectBackends raws w1 of
             Inl p \<Rightarrow> Inl p
           | Inr (indexes, w2) \<Rightarrow> Inr (index # indexes, w2)))"

subsection \<open>http.Header\<close>

text \<open>
  \<open>http.Header\<close> is a map from a key to the list of its values.  \<open>Get\<close>, \<open>Add\<close> and
  \<open>Set\<close> canonicalise the key (\<open>http.CanonicalHeaderKey\<close>: when every byte is a token
  byte, the first letter and each letter after a hyphen in upper case, the others in lower
  case; any other key is left as it is); indexing the map does not.
\<close>

definition validHeaderFieldByte :: "char \<Rightarrow> bool" where
  "validHeaderFieldByte c =
     (let n = (of_char c :: nat) in
        (48 \<le> n \<and> n \<le> 57) \<or> (65 \<le> n \<and> n \<le> 90) \<or> (97 \<le> n \<and> n \<le> 122) \<or>
        n \<in> set [33, 35, 36, 37, 38, 39, 42, 43, 45, 46, 94, 95, 96, 124, 126])"

definition canonicalByte :: "bool \<Rightarrow> char \<Rightarrow> char" where
  "canonicalByte upper c =
     (let n = (of_char c :: nat) in
        if upper \<and> 97 \<le> n \<and> n \<le> 122 then char_of (n - 32)
        else if \<not> upper \<and> 65 \<le> n \<and> n \<le> 90 then char_of (n + 32)
        else c)"

fun canonicalBytes :: "bool \<Rightarrow> string \<Rightarrow> string" where
  "canonicalBytes upper [] = []"
| "canonicalBytes upper (c # a) =
     (let c' = canonicalByte upper c in c' # canonicalBytes (c' = CHR ''-'') a)"

definition CanonicalHeaderKey :: "string \<Rightarrow> string" where
  "CanonicalHeaderKey s = (if list_all validHeaderFieldByte s then canonicalBytes True s else s)"

definition header_values :: "header \<Rightarrow> string \<Rightarrow> string list" where
  "header_values h key = (case h key of None \<Rightarrow> [] | Some vs \<Rightarrow> vs)"

definition header_Get :: "header \<Rightarrow> string \<Rightarrow> string" where
  "header_Get h key =
     (case header_values h (CanonicalHeaderKey key) of [] \<Rightarrow> [] | v # vs \<Rightarrow> v)"

definition header_Add :: "string \<Rightarrow> string \<Rightarrow> header \<Rightarrow> header" where
  "header_Add key v h =
     h (CanonicalHeaderKey key \<mapsto> header_values h (CanonicalHeaderKey key) @ [v])"

definition header_Set :: "string \<Rightarrow> string \<Rightarrow> header \<Rightarrow> header" where
  "header_Set key v h = h (CanonicalHeaderKey key \<mapsto> [v])"

fun strings_Join :: "string list \<Rightarrow> string \<Rightarrow> string" where
  "strings_Join [] sep = []"
| "strings_Join [x] sep = x"
| "strings_Join (x # y # ys) sep = x @ sep @ strings_Join (y # ys) sep"

subsection \<open>connectBackend\<close>

text \<open>
  What is outside the program during one call of \<open>connectBackend\<close>: the value of the
  random generator, \<open>net.SplitHostPort\<close> (\<open>None\<close> for its error), and what dialling does:
  \<open>Dial\<close> gets the dialer, the backend URL (the source hands it \<open>backendURL.String()\<close>) and
  the request header, and gives an error, or a connection and the header of the
  handshake response.  A connection is known by a number.  Log lines are left out.
\<close>

type_synonym conn = nat

datatype dial_result = DialError error | DialOK conn header

record world =
  draw :: nat
  SplitHostPort :: "string \<Rightarrow> (string \<times> string) option"
  Dial :: "dialer \<Rightarrow> url \<Rightarrow> header \<Rightarrow> dial_result"

text \<open>What the handler does to the outside, in the order it does it.\<close>

datatype event =
    EvDial dialer url header        \<comment> \<open>\<open>dialer.Dial(backendURL.String(), requestHeader)\<close>\<close>
  | EvHttpError string nat          \<comment> \<open>\<open>http.Error(rw, body, code)\<close>\<close>
  | EvUpgrade upgrader header       \<comment> \<open>\<open>upgrader.Upgrade(rw, req, upgradeHeader)\<close>\<close>
  | EvGo conn conn                  \<comment> \<open>\<open>go replicateWebsocketConn(dst, src, ...)\<close>\<close>
  | EvReceive                       \<comment> \<open>\<open><-errc\<close>\<close>
  | EvClose conn                    \<comment> \<open>a deferred \<open>Close()\<close>\<close>

text \<open>
  The header built for the dial: what is copied from the request and the forwarding
  headers (lines 132 to 163), then the director (lines 167 to 169), which gets the request
  and the header built so far and may add to it or change it.
\<close>

definition forwardedHeader :: "world \<Rightarrow> request \<Rightarrow> header" where
  "forwardedHeader env req =
     (let h0 = Map.empty;
          origin = header_Get (Header req) ''Origin'';
          h1 = (if origin \<noteq> [] then header_Add ''Origin'' origin h0 else h0);
          h2 = foldl (\<lambda>h prot. header_Add ''Sec-WebSocket-Protocol'' prot h) h1
                 (header_values (Header req) (CanonicalHeaderKey ''Sec-WebSocket-Protocol''));
          h3 = foldl (\<lambda>h cookie. header_Add ''Cookie'' cookie h) h2
                 (header_values (Header req) (CanonicalHeaderKey ''Cookie''));
          h4 = (case SplitHostPort env (RemoteAddr req) of
                  None \<Rightarrow> h3
                | Some (clientIP, port) \<Rightarrow>
                    header_Set ''X-Forwarded-For''
                      (case Header req ''X-Forwarded-For'' of
                         Some prior \<Rightarrow> strings_Join prior '', '' @ '', '' @ clientIP
                       | None \<Rightarrow> clientIP) h3);
          h5 = header_Set ''X-Forwarded-Proto'' ''http'' h4
      in (if TLS req \<noteq> None then header_Set ''X-Forwarded-Proto'' ''https'' h5 else h5))"

definition requestHeader :: "world \<Rightarrow> proxy \<Rightarrow> request \<Rightarrow> header" where
  "requestHeader env w req =
     (case Director w of
        None \<Rightarrow> forwardedHeader env req
      | Some director \<Rightarrow> director req (forwardedHeader env req))"

text \<open>The header handed to the upgrader (lines 185 to 191).\<close>

definition upgradeHeader :: "header \<Rightarrow> header" where
  "upgradeHeader resp =
     (let u0 = Map.empty;
          hdr = header_Get resp ''Sec-Websocket-Protocol'';
          u1 = (if hdr \<noteq> [] then header_Set ''Sec-Websocket-Protocol'' hdr u0 else u0);
          hdr' = header_Get resp ''Set-Cookie''
      in (if hdr' \<noteq> [] then header_Set ''Set-Cookie'' hdr' u1 else u1))"

definition connectBackend ::
  "world \<Rightarrow> proxy \<Rightarrow> request \<Rightarrow> panic + ((error + conn \<times> header) \<times> proxy \<times> event list)" where
  "connectBackend env w req =
     (case selectBackend (draw env) w of
        Inl p \<Rightarrow> Inl p
      | Inr (index, w1) \<Rightarrow>
          if index < 0 \<or> int (length (Backends w1)) \<le> index then Inl IndexOutOfRange
          else
            let backendURL = (Backends w1 ! nat index) req;
                dialer = (case Dialer w1 of None \<Rightarrow> DefaultDialer | Some d \<Rightarrow> d);
                hdr = requestHeader env w1 req
            in (case Dial env dialer backendURL hdr of
                  DialError err \<Rightarrow>
                    Inr (Inl err,
                         w1 \<lparr> DesolateBackend := (DesolateBackend w1)(index \<mapsto> 5) \<rparr>,
                         [EvDial dialer backendURL hdr])
                | DialOK connBackend resp \<Rightarrow>
                    Inr (Inr (connBackend, upgradeHeader resp),
                         w1 \<lparr> DesolateBackend := (DesolateBackend w1)(index \<mapsto> 0) \<rparr>,
                         [EvDial dialer backendURL hdr])))"

subsection \<open>tryGetBackendConn and ServeHTTP\<close>

text \<open>
  The loop \<open>for i := 0; i < backendCount; i++\<close>; \<open>worlds i\<close> is the outside during the
  call of \<open>connectBackend\<close> in iteration \<open>i\<close>.
\<close>

function tryLoop ::
  "(nat \<Rightarrow> world) \<Rightarrow> request \<Rightarrow> nat \<Rightarrow> nat \<Rightarrow> proxy \<Rightarrow>
   panic + ((error + conn \<times> header) \<times> proxy \<times> event list)" where
  "tryLoop worlds req backendCount i w =
     (if i < backendCount then
        (case connectBackend (worlds i) w req of
           Inl p \<Rightarrow> Inl p
         | Inr (Inl err, w1, evs) \<Rightarrow>
             (case tryLoop worlds req backendCount (i + 1) w1 of
                Inl p \<Rightarrow> Inl p
              | Inr (r, w2, evs') \<Rightarrow> Inr (r, w2, evs @ evs'))
         | Inr (Inr (connBackend, upgradeHdr), w1, evs) \<Rightarrow>
             Inr (Inr (connBackend, upgradeHdr), w1, evs))
      else Inr (Inl (errors_New ''No backend available''), w, []))"
  by pat_completeness auto
termination
  by (relation "measure (\<lambda>(worlds, req, backendCount, i, w). backendCount - i)") auto

declare tryLoop.simps [simp del]

definition tryGetBackendConn ::
  "(nat \<Rightarrow> world) \<Rightarrow> proxy \<Rightarrow> request \<Rightarrow>
   panic + ((error + conn \<times> header) \<times> proxy \<times> event list)" where
  "tryGetBackendConn worlds w req = tryLoop worlds req (length (Backends w)) 0 w"

text \<open>
  \<open>ServeHTTP\<close>, with the upgrade of the inbound connection as \<open>upgrade\<close> (an error, or the
  client's connection).  The two relay tasks run on their own (\<open>EvGo\<close>); the handler waits
  for the first value on \<open>errc\<close> and its deferred calls close the two connections.
\<close>

definition ServeHTTP ::
  "(nat \<Rightarrow> world) \<Rightarrow> (upgrader \<Rightarrow> request \<Rightarrow> header \<Rightarrow> error + conn) \<Rightarrow> proxy \<Rightarrow> request \<Rightarrow>
   panic + (proxy \<times> event list)" where
  "ServeHTTP worlds upgrade w req =
     (case tryGetBackendConn worlds w req of
        Inl p \<Rightarrow> Inl p
      | Inr (Inl err, w1, evs) \<Rightarrow>
          Inr (w1, evs @ [EvHttpError ''internal server error (code: 2)'' 500])
      | Inr (Inr (connBackend, upgradeHdr), w1, evs) \<Rightarrow>
          let upgrader = (case Upgrader w1 of None \<Rightarrow> DefaultUpgrader | Some u \<Rightarrow> u)
          in (case upgrade upgrader req upgradeHdr of
                Inl err \<Rightarrow> Inr (w1, evs @ [EvUpgrade upgrader upgradeHdr, EvClose connBackend])
              | Inr connPub \<Rightarrow>
                  Inr (w1, evs @ [EvUpgrade upgrader upgradeHdr,
                                  EvGo connPub connBackend, EvGo connBackend connPub,
                                  EvReceive, EvClose connPub, EvClose connBackend])))"

text \<open>
  What a dial event of the handler met outside: the dial failed, or it gave the connection
  and the header that \<open>connectBackend\<close> returns.
\<close>

definition dialFailed :: "world \<Rightarrow> event \<Rightarrow> bool" where
  "dialFailed env e =
     (case e of
        EvDial d u h \<Rightarrow> (case Dial env d u h of DialError err \<Rightarrow> True | DialOK c resp \<Rightarrow> False)
      | _ \<Rightarrow> False)"

definition dialGave :: "world \<Rightarrow> event \<Rightarrow> conn \<Rightarrow> header \<Rightarrow> bool" where
  "dialGave env e connBackend upgradeHdr =
     (case e of
        EvDial d u h \<Rightarrow>
          (case Dial env d u h of
             DialError err \<Rightarrow> False
           | DialOK c resp \<Rightarrow> c = connBackend \<and> upgradeHdr = upgradeHeader resp)
      | _ \<Rightarrow> False)"

subsection \<open>replicateWebsocketConn\<close>

text \<open>
  One relay task.  \<open>src\<close> is what the successive calls of \<open>src.ReadMessage()\<close> return,
  \<open>(msgType, msg, err)\<close> each; when the list is used up the next call does not return.
  \<open>dst k msgType msg\<close> is what the call of \<open>dst.WriteMessage(msgType, msg)\<close> returns after
  \<open>k\<close> earlier ones.  The function has a variable \<open>err\<close> of its own, and the loop body
  declares a second \<open>err\<close> with \<open>:=\<close>, which the write assigns to.  The loop gives the calls
  of \<open>WriteMessage\<close> it made and, when it was left by a \<open>break\<close>, the two variables.
\<close>

type_synonym bytes = "8 word list"

fun replicateLoop ::
  "(nat \<Rightarrow> int \<Rightarrow> bytes \<Rightarrow> error option) \<Rightarrow> (int \<times> bytes \<times> error option) list \<Rightarrow>
   (int \<times> bytes) list \<Rightarrow> error option \<Rightarrow>
   (int \<times> bytes) list \<times> (error option \<times> error option) option" where
  "replicateLoop dst [] written err = (written, None)"
| "replicateLoop dst ((msgType, msg, err') # src) written err =
     (if err' \<noteq> None then (written, Some (err, err'))
      else
        let err'' = dst (length written) msgType msg
        in if err'' \<noteq> None then (written @ [(msgType, msg)], Some (err, err''))
           else replicateLoop dst src (written @ [(msgType, msg)]) err)"

text \<open>
  The task: \<open>var err error\<close>, the loop, \<open>errc <- err\<close>.  \<open>errc\<close> holds at most two values
  (\<open>make(chan error, 2)\<close>); a send to a full channel does not return.  The result is the
  calls of \<open>WriteMessage\<close> and the channel after the send, \<open>None\<close> when the task does not
  get there.
\<close>

definition replicateWebsocketConn ::
  "(nat \<Rightarrow> int \<Rightarrow> bytes \<Rightarrow> error option) \<Rightarrow> (int \<times> bytes \<times> error option) list \<Rightarrow>
   error option list \<Rightarrow> (int \<times> bytes) list \<times> error option list option" where
  "replicateWebsocketConn dst src errc =
     (let err = None
      in (case replicateLoop dst src [] err of
            (written, None) \<Rightarrow> (written, None)
          | (written, Some (err, err')) \<Rightarrow>
              (written, if length errc < 2 then Some (errc @ [err]) else None)))"

text \<open>The error that ended the loop of a task: the \<open>err\<close> of the loop body at the \<open>break\<close>.\<close>

definition terminalError ::
  "(nat \<Rightarrow> int \<Rightarrow> bytes \<Rightarrow> error option) \<Rightarrow> (int \<times> bytes \<times> error option) list \<Rightarrow>
   error option option" where
  "terminalError dst src =
     (case replicateLoop dst src [] None of
        (written, None) \<Rightarrow> None
      | (written, Some (err, err')) \<Rightarrow> Some err')"

text \<open>The message of a read, and whether the read gave one.\<close>

definition message :: "int \<times> bytes \<times> error option \<Rightarrow> int \<times> bytes" where
  "message r = (fst r, fst (snd r))"

definition readOK :: "int \<times> bytes \<times> error option \<Rightarrow> bool" where
  "readOK r = (snd (snd r) = None)"

section \<open>Values for the examples\<close>

text \<open>The two backends of the example program, a request, and what is outside.\<close>

definition url_9001 :: url where
  "url_9001 = \<lparr> Scheme = ''ws'', Opaque = [], User = None, Host = ''127.0.0.1:9001'',
                Path = [], RawPath = [], ForceQuery = False, RawQuery = [], Fragment = [] \<rparr>"

definition url_9002 :: url where
  "url_9002 = url_9001 \<lparr> Host := ''127.0.0.1:9002'' \<rparr>"

definition request_chat :: request where
  "request_chat =
     \<lparr> URL = \<lparr> Scheme = [], Opaque = [], User = None, Host = [], Path = ''/chat'', RawPath = [],
               ForceQuery = False, RawQuery = ''room=1'', Fragment = ''top'' \<rparr>,
       Header = [''Sec-Websocket-Protocol'' \<mapsto> [''v1'', ''v2''],
                 ''X-Forwarded-For'' \<mapsto> [''1.2.3.4'']],
       RemoteAddr = ''5.6.7.8:4711'',
       TLS = None \<rparr>"

definition refused :: error where
  "refused = errors_New ''dial tcp: connection refused''"

text \<open>
  \<open>net.SplitHostPort\<close> on the two peer addresses of the examples: \<open>5.6.7.8:4711\<close> splits,
  and \<open>@\<close>, the peer address of a request that came over a Unix socket, has no port.
\<close>

definition splitExample :: "string \<Rightarrow> (string \<times> string) option" where
  "splitExample s = (if s = ''5.6.7.8:4711'' then Some (''5.6.7.8'', ''4711'') else None)"

definition request_unix :: request where
  "request_unix = request_chat \<lparr> RemoteAddr := ''@'' \<rparr>"

text \<open>An outside with no backend up.\<close>

definition world_down :: world where
  "world_down = \<lparr> draw = 0, SplitHostPort = splitExample, Dial = (\<lambda>d u h. DialError refused) \<rparr>"

text \<open>An outside where only the backend on port 9002 is up.\<close>

definition world_up :: world where
  "world_up =
     \<lparr> draw = 0,
       SplitHostPort = splitExample,
       Dial = (\<lambda>d u h. if Host u = ''127.0.0.1:9002''
                        then DialOK 1 [''Sec-Websocket-Protocol'' \<mapsto> [''v1''], ''Server'' \<mapsto> [''backend'']]
                        else DialError refused) \<rparr>"

definition closed :: error where
  "closed = errors_New ''websocket: close 1006 (abnormal closure)''"



definition proxy2 :: proxy where
  "proxy2 = AddBackend url_9002 (AddBackend url_9001 NewProxy)"

definition proxy3 :: proxy where
  "proxy3 = AddBackend url_9001 (AddBackend url_9002 (AddBackend url_9001 NewProxy))"

definition proxy2_outage :: proxy where
  "proxy2_outage = proxy2 \<lparr> DesolateBackend := [0 \<mapsto> 5, 1 \<mapsto> 3] \<rparr>"


section \<open>Arithmetic of the counter\<close>


lemma wrap64_id: "- (2 ^ 63) \<le> x \<Longrightarrow> x < 2 ^ 63 \<Longrightarrow> wrap64 x = x"
  by (simp add: wrap64_def)

lemma go_rem_nonneg: "0 \<le> a \<Longrightarrow> 0 < b \<Longrightarrow> go_rem a b = a mod b"
  by (cases "a = 0") (simp_all add: go_rem_def)

lemma mod_shift_neq:
  fixes a d N :: int
  assumes "0 < d" "d < N"
  shows "(a + d) mod N \<noteq> a mod N"
proof
  assume "(a + d) mod N = a mod N"
  then have "N dvd (a + d) - a" by (simp only: mod_eq_dvd_iff)
  then have "N dvd d" by simp
  with assms show False by (simp add: zdvd_not_zless)
qed






section \<open>The selection loop\<close>

lemma selectLoop_fallback:
  "backendcnt \<le> selectcnt \<Longrightarrow> 0 < backendcnt \<Longrightarrow>
   selectLoop raw backendcnt selectcnt w = Inr (int raw mod backendcnt, w)"
  by (simp add: selectLoop.simps Intn_def)

lemma selectLoop_round:
  assumes "selectcnt < backendcnt" "0 < backendcnt" "0 \<le> ReqCount w" "ReqCount w + 1 < 2 ^ 63"
  shows "selectLoop raw backendcnt selectcnt w =
     (case DesolateBackend w ((ReqCount w + 1) mod backendcnt) of
            Some waitcnt \<Rightarrow>
              if waitcnt \<le> 0 then Inr ((ReqCount w + 1) mod backendcnt, w \<lparr> ReqCount := ReqCount w + 1 \<rparr>)
              else selectLoop raw backendcnt (selectcnt + 1)
                     (w \<lparr> ReqCount := ReqCount w + 1,
                         DesolateBackend := (DesolateBackend w)((ReqCount w + 1) mod backendcnt \<mapsto> waitcnt - 1) \<rparr>)
          | None \<Rightarrow> Inr ((ReqCount w + 1) mod backendcnt, w \<lparr> ReqCount := ReqCount w + 1 \<rparr>))"
proof -
  have w: "wrap64 (ReqCount w + 1) = ReqCount w + 1"
    using assms by (intro wrap64_id) auto
  have r: "go_rem (ReqCount w + 1) backendcnt = (ReqCount w + 1) mod backendcnt"
    using assms by (intro go_rem_nonneg) auto
  show ?thesis
    using assms
    by (subst selectLoop.simps) (simp add: w r Let_def split: option.splits)
qed

lemma selectLoop_returns:
  "0 < N \<Longrightarrow> selectcnt \<le> N \<Longrightarrow> 0 \<le> ReqCount w \<Longrightarrow>
   ReqCount w + (N - selectcnt) < 2 ^ 63 \<Longrightarrow>
   \<exists>index w'. selectLoop raw N selectcnt w = Inr (index, w') \<and> 0 \<le> index \<and> index < N \<and>
      ReqCount w \<le> ReqCount w' \<and> ReqCount w' \<le> ReqCount w + (N - selectcnt) \<and>
      sameConfig w w'"
proof (induction raw N selectcnt w rule: selectLoop.induct)
  case (1 raw N selectcnt w)
  note pos = "1.prems"(1) and le = "1.prems"(2) and c0 = "1.prems"(3) and c1 = "1.prems"(4)
  show ?case
  proof (cases "N \<le> selectcnt")
    case True
    with pos le c0 c1 show ?thesis
      by (simp add: selectLoop_fallback sameConfig_def)
  next
    case False
    let ?i = "(ReqCount w + 1) mod N"
    have lt: "selectcnt < N" using False by simp
    have room: "ReqCount w + 1 < 2 ^ 63" using c1 lt by arith
    have idx: "0 \<le> ?i" "?i < N" using pos by simp_all
    note round = selectLoop_round [OF lt pos c0 room, of raw]
    show ?thesis
    proof (cases "DesolateBackend w ?i")
      case None
      then show ?thesis using round idx lt by (simp add: sameConfig_def)
    next
      case (Some waitcnt)
      show ?thesis
      proof (cases "waitcnt \<le> 0")
        case True
        then show ?thesis using round idx lt Some by (simp add: sameConfig_def)
      next
        case pos_wait: False
        let ?w2 = "w \<lparr> ReqCount := ReqCount w + 1,
                         DesolateBackend := (DesolateBackend w)(?i \<mapsto> waitcnt - 1) \<rparr>"
        have eq: "selectLoop raw N selectcnt w = selectLoop raw N (selectcnt + 1) ?w2"
          using round Some pos_wait by simp
        have w1: "wrap64 (ReqCount w + 1) = ReqCount w + 1"
          using c0 room by (intro wrap64_id) auto
        have r: "go_rem (ReqCount w + 1) N = ?i"
          using pos c0 by (intro go_rem_nonneg) auto
        have N0: "N \<noteq> 0" using pos by simp
        have IH: "\<exists>index w'. selectLoop raw N (selectcnt + 1) ?w2 = Inr (index, w') \<and> 0 \<le> index \<and> index < N \<and>
            ReqCount ?w2 \<le> ReqCount w' \<and> ReqCount w' \<le> ReqCount ?w2 + (N - (selectcnt + 1)) \<and>
            sameConfig ?w2 w'"
          using "1.IH" [OF False N0 refl refl, of waitcnt] pos le c0 c1 Some pos_wait lt
          by (simp add: w1 r)
        then show ?thesis
          unfolding eq by (auto simp: sameConfig_def)
      qed
    qed
  qed
qed


lemma selectLoop_outage:
  "0 < N \<Longrightarrow> 0 \<le> selectcnt \<and> selectcnt \<le> N \<Longrightarrow> 0 \<le> ReqCount w \<Longrightarrow>
   ReqCount w + (N - selectcnt) < 2 ^ 63 \<Longrightarrow>
   (\<And>t. ReqCount w < t \<Longrightarrow> t \<le> ReqCount w + (N - selectcnt) \<Longrightarrow>
      \<exists>b. 0 < b \<and> DesolateBackend w (t mod N) = Some b) \<Longrightarrow>
   \<exists>w'. selectLoop raw N selectcnt w = Inr (int raw mod N, w') \<and>
      ReqCount w' = ReqCount w + (N - selectcnt)"
proof (induction raw N selectcnt w rule: selectLoop.induct)
  case (1 raw N selectcnt w)
  note pos = "1.prems"(1) and le = "1.prems"(2) and c0 = "1.prems"(3) and c1 = "1.prems"(4)
    and out = "1.prems"(5)
  show ?case
  proof (cases "N \<le> selectcnt")
    case True
    with pos le show ?thesis
      by (simp add: selectLoop_fallback)
  next
    case False
    let ?i = "(ReqCount w + 1) mod N"
    have lt: "selectcnt < N" using False by simp
    have room: "ReqCount w + 1 < 2 ^ 63" using c1 lt by arith
    note round = selectLoop_round [OF lt pos c0 room, of raw]
    obtain waitcnt where wc: "0 < waitcnt" "DesolateBackend w ?i = Some waitcnt"
      using out [of "ReqCount w + 1"] lt by auto
    let ?w2 = "w \<lparr> ReqCount := ReqCount w + 1,
                     DesolateBackend := (DesolateBackend w)(?i \<mapsto> waitcnt - 1) \<rparr>"
    have eq: "selectLoop raw N selectcnt w = selectLoop raw N (selectcnt + 1) ?w2"
      using round wc by simp
    have w1: "wrap64 (ReqCount w + 1) = ReqCount w + 1"
      using c0 room by (intro wrap64_id) auto
    have r: "go_rem (ReqCount w + 1) N = ?i"
      using pos c0 by (intro go_rem_nonneg) auto
    have N0: "N \<noteq> 0" using pos by simp
    have rest: "\<exists>b. 0 < b \<and> DesolateBackend ?w2 (t mod N) = Some b"
      if "ReqCount ?w2 < t" "t \<le> ReqCount ?w2 + (N - (selectcnt + 1))" for t
    proof -
      have t1: "ReqCount w + 1 < t" "t \<le> ReqCount w + (N - selectcnt)"
        using that by simp_all
      have "(ReqCount w + 1 + (t - (ReqCount w + 1))) mod N \<noteq> ?i"
        using t1 le by (intro mod_shift_neq) arith+
      then have "t mod N \<noteq> ?i" by simp
      moreover have "\<exists>b. 0 < b \<and> DesolateBackend w (t mod N) = Some b"
        using t1 by (intro out) arith+
      ultimately show ?thesis by simp
    qed
    have "\<exists>w'. selectLoop raw N (selectcnt + 1) ?w2 = Inr (int raw mod N, w') \<and>
        ReqCount w' = ReqCount ?w2 + (N - (selectcnt + 1))"
      using "1.IH" [OF False N0 refl refl, of waitcnt] pos le c0 c1 wc lt rest
      by (simp add: w1 r)
    then show ?thesis
      unfolding eq by auto
  qed
qed



lemma eligible_ReqCount [simp]: "eligible (w \<lparr> ReqCount := x \<rparr>) j = eligible w j"
  by (simp add: eligible_def)

lemma selectBackend_eligible:
  assumes len: "int (length (Backends w)) = N" and pos: "0 < N"
    and c: "0 \<le> ReqCount w" "ReqCount w + 1 < 2 ^ 63"
    and e: "eligible w ((ReqCount w + 1) mod N)"
  shows "selectBackend raw w = Inr ((ReqCount w + 1) mod N, w \<lparr> ReqCount := ReqCount w + 1 \<rparr>)"
  unfolding selectBackend_def len
  using e selectLoop_round [OF pos pos c, of raw]
  by (simp add: eligible_def split: option.splits)


lemma selectBackends_eligible:
  "int (length (Backends w)) = N \<Longrightarrow> 0 < N \<Longrightarrow> 0 \<le> ReqCount w \<Longrightarrow>
   ReqCount w + int (length raws) < 2 ^ 63 \<Longrightarrow>
   (\<And>k. k < length raws \<Longrightarrow> eligible w ((ReqCount w + 1 + int k) mod N)) \<Longrightarrow>
   selectBackends raws w =
     Inr (map (\<lambda>k. (ReqCount w + 1 + int k) mod N) [0..<length raws],
          w \<lparr> ReqCount := ReqCount w + int (length raws) \<rparr>)"
proof (induction raws arbitrary: w)
  case Nil
  then show ?case by simp
next
  case (Cons raw raws)
  let ?w1 = "w \<lparr> ReqCount := ReqCount w + 1 \<rparr>"
  have first: "selectBackend raw w = Inr ((ReqCount w + 1) mod N, ?w1)"
    using Cons.prems(1,2,3,4) Cons.prems(5) [of 0]
    by (intro selectBackend_eligible) auto
  have ih: "selectBackends raws ?w1 =
     Inr (map (\<lambda>k. (ReqCount ?w1 + 1 + int k) mod N) [0..<length raws],
          ?w1 \<lparr> ReqCount := ReqCount ?w1 + int (length raws) \<rparr>)"
  proof (rule Cons.IH)
    fix k assume "k < length raws"
    then have "eligible w ((ReqCount w + 1 + int (Suc k)) mod N)"
      using Cons.prems(5) [of "Suc k"] by simp
    moreover have "ReqCount w + 1 + int (Suc k) = ReqCount ?w1 + 1 + int k" by simp
    ultimately show "eligible ?w1 ((ReqCount ?w1 + 1 + int k) mod N)"
      by (simp only: eligible_ReqCount)
  qed (use Cons.prems in auto)
  have eq2: "ReqCount ?w1 + 1 + int k = ReqCount w + 1 + int (Suc k)" for k by simp
  have eq3: "?w1 \<lparr> ReqCount := ReqCount ?w1 + int (length raws) \<rparr> =
      w \<lparr> ReqCount := ReqCount w + int (length (raw # raws)) \<rparr>" by simp
  have rest: "selectBackends raws ?w1 =
     Inr (map (\<lambda>k. (ReqCount w + 1 + int (Suc k)) mod N) [0..<length raws],
          w \<lparr> ReqCount := ReqCount w + int (length (raw # raws)) \<rparr>)"
    using ih by (simp only: eq2 eq3)
  have "selectBackends (raw # raws) w =
      Inr ((ReqCount w + 1) mod N # map (\<lambda>k. (ReqCount w + 1 + int (Suc k)) mod N) [0..<length raws],
          w \<lparr> ReqCount := ReqCount w + int (length (raw # raws)) \<rparr>)"
    by (simp only: selectBackends.simps first rest sum.case prod.case)
  also have "(ReqCount w + 1) mod N # map (\<lambda>k. (ReqCount w + 1 + int (Suc k)) mod N) [0..<length raws]
      = map (\<lambda>k. (ReqCount w + 1 + int k) mod N) [0..<length (raw # raws)]"
    by (simp add: map_upt_Suc del: upt_Suc)
  finally show ?case .
qed



section \<open>Round robin over eligible backends\<close>

text \<open>
  C1.  A pool of \<open>N \<ge> 1\<close> backends, each with a skip budget that is zero or absent, and a
  counter that is not negative and does not overflow during the calls: \<open>N\<close> consecutive
  calls of \<open>selectBackend\<close> return \<open>(c + 1) mod N\<close>, \<open>(c + 2) mod N\<close>, ..., \<open>(c + N) mod N\<close>
  for the counter \<open>c\<close> at the start, so each index of \<open>[0, N)\<close> exactly once and each the
  successor modulo \<open>N\<close> of the one before; after the first \<open>k\<close> calls the counter is
  \<open>c + k\<close> and nothing else of the proxy has changed.
\<close>

theorem round_robin_fairness:
  assumes len: "length raws = length (Backends w)" and N: "1 \<le> length (Backends w)"
    and healthy: "\<forall>j. 0 \<le> j \<and> j < int (length (Backends w)) \<longrightarrow>
        DesolateBackend w j = None \<or> DesolateBackend w j = Some 0"
    and c: "0 \<le> ReqCount w" "ReqCount w + int (length (Backends w)) < 2 ^ 63"
  shows "\<exists>indexes.
      selectBackends raws w =
        Inr (indexes, w \<lparr> ReqCount := ReqCount w + int (length (Backends w)) \<rparr>) \<and>
      indexes = map (\<lambda>k. (ReqCount w + 1 + int k) mod int (length (Backends w)))
                  [0..<length (Backends w)] \<and>
      distinct indexes \<and> set indexes = {0..<int (length (Backends w))} \<and>
      (\<forall>k. k \<le> length (Backends w) \<longrightarrow>
         selectBackends (take k raws) w =
           Inr (take k indexes, w \<lparr> ReqCount := ReqCount w + int k \<rparr>))"
proof -
  define n where "n = length (Backends w)"
  define N where "N = int n"
  define f where "f = (\<lambda>k. (ReqCount w + 1 + int k) mod N)"
  have L: "int (length (Backends w)) = N" by (simp add: N_def n_def)
  have pos: "0 < N" unfolding N_def n_def using N by linarith
  have el: "eligible w (t mod N)" for t
  proof -
    have "0 \<le> t mod N \<and> t mod N < N" using pos by simp
    then have "DesolateBackend w (t mod N) = None \<or> DesolateBackend w (t mod N) = Some 0"
      using healthy unfolding L by blast
    then show ?thesis by (auto simp: eligible_def)
  qed
  have run: "selectBackends (take k raws) w =
      Inr (map f [0..<k], w \<lparr> ReqCount := ReqCount w + int k \<rparr>)" if "k \<le> n" for k
  proof -
    have lk: "length (take k raws) = k" using that len by (simp add: n_def)
    have "ReqCount w + int (length (take k raws)) < 2 ^ 63"
      using c(2) that unfolding lk L N_def by linarith
    from selectBackends_eligible [OF L pos c(1) this] el
    show ?thesis unfolding lk f_def by blast
  qed
  have inj: "inj_on f {0..<n}"
  proof (rule inj_onI)
    fix a b assume a: "a \<in> {0..<n}" and b: "b \<in> {0..<n}" and eq: "f a = f b"
    have ne: "f x \<noteq> f y" if "x < y" "y < n" for x y
    proof -
      have "(ReqCount w + 1 + int x + (int y - int x)) mod N \<noteq> (ReqCount w + 1 + int x) mod N"
        using that by (intro mod_shift_neq) (simp_all add: N_def)
      moreover have "ReqCount w + 1 + int x + (int y - int x) = ReqCount w + 1 + int y" by simp
      ultimately show ?thesis unfolding f_def by (simp only:)
    qed
    show "a = b"
    proof (rule ccontr)
      assume "a \<noteq> b"
      then consider "a < b" | "b < a" by linarith
      then show False
      proof cases
        case 1 then show False using ne [of a b] b eq by simp
      next
        case 2 then show False using ne [of b a] a eq by simp
      qed
    qed
  qed
  have dist: "distinct (map f [0..<n])" using inj by (simp add: distinct_map)
  have sub: "set (map f [0..<n]) \<subseteq> {0..<N}" using pos by (auto simp: f_def)
  have "card (set (map f [0..<n])) = length (map f [0..<n])" using dist by (rule distinct_card)
  then have "card (set (map f [0..<n])) = n" by simp
  moreover have "card {0..<N} = n" by (simp add: N_def)
  ultimately have seteq: "set (map f [0..<n]) = {0..<N}"
    using sub by (intro card_subset_eq) simp_all
  have whole: "selectBackends raws w = Inr (map f [0..<n], w \<lparr> ReqCount := ReqCount w + N \<rparr>)"
    using run [of n] len by (simp add: n_def N_def)
  have pre: "selectBackends (take k raws) w =
      Inr (take k (map f [0..<n]), w \<lparr> ReqCount := ReqCount w + int k \<rparr>)" if "k \<le> n" for k
    using run [OF that] that by (simp add: take_map min_def)
  have "\<exists>indexes.
      selectBackends raws w = Inr (indexes, w \<lparr> ReqCount := ReqCount w + N \<rparr>) \<and>
      indexes = map f [0..<n] \<and> distinct indexes \<and> set indexes = {0..<N} \<and>
      (\<forall>k. k \<le> n \<longrightarrow>
         selectBackends (take k raws) w =
           Inr (take k indexes, w \<lparr> ReqCount := ReqCount w + int k \<rparr>))"
    using whole dist seteq pre by blast
  then show ?thesis unfolding f_def N_def n_def .
qed

lemma proxy3_fields:
  "length (Backends proxy3) = 3" "ReqCount proxy3 = 0" "DesolateBackend proxy3 = Map.empty"
  by (simp_all add: proxy3_def AddBackend_def NewProxy_def)

theorem round_robin_fairness_witness:
  "selectBackends [0, 0, 0] proxy3 = Inr ([1, 2, 0], proxy3 \<lparr> ReqCount := 3 \<rparr>)"
proof -
  have h1: "length [0, 0, 0 :: nat] = length (Backends proxy3)" by (simp add: proxy3_fields)
  have h2: "1 \<le> length (Backends proxy3)" by (simp add: proxy3_fields)
  have h3: "\<forall>j. 0 \<le> j \<and> j < int (length (Backends proxy3)) \<longrightarrow>
      DesolateBackend proxy3 j = None \<or> DesolateBackend proxy3 j = Some 0"
    by (simp add: proxy3_fields)
  have h4: "0 \<le> ReqCount proxy3" by (simp add: proxy3_fields)
  have h5: "ReqCount proxy3 + int (length (Backends proxy3)) < 2 ^ 63" by (simp add: proxy3_fields)
  from round_robin_fairness [OF h1 h2 h3 h4 h5]
  have "selectBackends [0, 0, 0] proxy3 =
      Inr (map (\<lambda>k. (ReqCount proxy3 + 1 + int k) mod int (length (Backends proxy3)))
             [0..<length (Backends proxy3)],
           proxy3 \<lparr> ReqCount := ReqCount proxy3 + int (length (Backends proxy3)) \<rparr>)"
    by blast
  then show ?thesis by (simp add: proxy3_fields upt_rec)
qed

section \<open>Back-off after a failed dial\<close>





section \<open>Selection always returns\<close>

text \<open>
  The theorems on selection take a counter that is not negative and stays below \<open>2 ^ 63\<close>
  during the calls, which holds for the first \<open>2 ^ 63 - 1\<close> rounds of a proxy made by
  \<open>NewProxy\<close>.  Past that the increment wraps around and \<open>%\<close> gives a negative index.
\<close>

lemma selectBackend_counter_wraps:
  "selectBackend 0 (proxy3 \<lparr> ReqCount := 2 ^ 63 - 1 \<rparr>) =
     Inr (- 2, proxy3 \<lparr> ReqCount := - (2 ^ 63) \<rparr>)"
  by (simp add: selectBackend_def selectLoop.simps proxy3_def AddBackend_def NewProxy_def
      wrap64_def go_rem_def)

text \<open>
  C3.  For a pool of \<open>N \<ge> 1\<close> backends and any skip budgets, with a counter that is not
  negative and does not overflow during the call, \<open>selectBackend\<close> returns an index of
  \<open>[0, N)\<close> after at most \<open>N\<close> rounds (the counter advances by one in each round).  Once
  \<open>selectcnt\<close> has reached \<open>N\<close> the loop returns the random index of \<open>[0, N)\<close>, whatever
  the budgets are; when every backend has a positive budget this is what the call
  returns, after exactly \<open>N\<close> rounds.
\<close>

theorem selectBackend_terminates_in_range:
  assumes "1 \<le> length (Backends w)" "0 \<le> ReqCount w"
    "ReqCount w + int (length (Backends w)) < 2 ^ 63"
  shows "\<exists>index w'. selectBackend raw w = Inr (index, w') \<and>
      0 \<le> index \<and> index < int (length (Backends w)) \<and>
      ReqCount w \<le> ReqCount w' \<and> ReqCount w' - ReqCount w \<le> int (length (Backends w)) \<and>
      (\<forall>selectcnt v. int (length (Backends w)) \<le> selectcnt \<longrightarrow>
         selectLoop raw (int (length (Backends w))) selectcnt v =
           Inr (int raw mod int (length (Backends w)), v)) \<and>
      ((\<forall>j. 0 \<le> j \<and> j < int (length (Backends w)) \<longrightarrow> (\<exists>b. 0 < b \<and> DesolateBackend w j = Some b)) \<longrightarrow>
         index = int raw mod int (length (Backends w)) \<and>
         ReqCount w' - ReqCount w = int (length (Backends w)))"
proof -
  define N where "N = int (length (Backends w))"
  have pos: "0 < N" unfolding N_def using assms(1) by linarith
  have room: "ReqCount w + (N - 0) < 2 ^ 63" using assms(3) by (simp add: N_def)
  obtain index w' where sel: "selectLoop raw N 0 w = Inr (index, w')"
    and rng: "0 \<le> index" "index < N"
    and cnt: "ReqCount w \<le> ReqCount w'" "ReqCount w' \<le> ReqCount w + (N - 0)"
    using selectLoop_returns [OF pos _ assms(2) room, of raw] pos by auto
  have fb: "selectLoop raw N selectcnt v = Inr (int raw mod N, v)" if "N \<le> selectcnt"
    for selectcnt v
    using that pos by (rule selectLoop_fallback)
  have "index = int raw mod N \<and> ReqCount w' - ReqCount w = N"
    if out: "\<forall>j. 0 \<le> j \<and> j < N \<longrightarrow> (\<exists>b. 0 < b \<and> DesolateBackend w j = Some b)"
  proof -
    have "\<exists>b. 0 < b \<and> DesolateBackend w (t mod N) = Some b" for t
      using out pos by simp
    then obtain w'' where "selectLoop raw N 0 w = Inr (int raw mod N, w'')"
      "ReqCount w'' = ReqCount w + (N - 0)"
      using selectLoop_outage [OF pos _ assms(2) room, of raw] pos by auto
    with sel show ?thesis by simp
  qed
  with sel rng cnt fb show ?thesis
    unfolding selectBackend_def N_def [symmetric] by auto
qed

theorem selectBackend_terminates_in_range_witness:
  "\<exists>index w'. selectBackend 7 proxy2_outage = Inr (index, w') \<and> 0 \<le> index \<and> index < 2 \<and>
     ReqCount w' - ReqCount proxy2_outage \<le> 2"
proof -
  have len: "length (Backends proxy2_outage) = 2"
    by (simp add: proxy2_outage_def proxy2_def AddBackend_def NewProxy_def)
  have c: "ReqCount proxy2_outage = 0"
    by (simp add: proxy2_outage_def proxy2_def AddBackend_def NewProxy_def)
  have h1: "1 \<le> length (Backends proxy2_outage)" by (simp add: len)
  have h2: "0 \<le> ReqCount proxy2_outage" by (simp add: c)
  have h3: "ReqCount proxy2_outage + int (length (Backends proxy2_outage)) < 2 ^ 63"
    by (simp add: len c)
  from selectBackend_terminates_in_range [OF h1 h2 h3, of 7]
  obtain index w' where "selectBackend 7 proxy2_outage = Inr (index, w')" "0 \<le> index"
    "index < int (length (Backends proxy2_outage))"
    "ReqCount w' - ReqCount proxy2_outage \<le> int (length (Backends proxy2_outage))"
    by blast
  then show ?thesis by (simp add: len)
qed

section \<open>The URL of a backend\<close>

lemma getRequestURL_fields:
  "Scheme (getRequestURL target r) = Scheme target"
  "Opaque (getRequestURL target r) = Opaque target"
  "User (getRequestURL target r) = User target"
  "Host (getRequestURL target r) = Host target"
  "RawPath (getRequestURL target r) = RawPath target"
  "ForceQuery (getRequestURL target r) = ForceQuery target"
  "Path (getRequestURL target r) = Path (URL r)"
  "RawQuery (getRequestURL target r) = RawQuery (URL r)"
  "Fragment (getRequestURL target r) = Fragment (URL r)"
  by (simp_all add: getRequestURL_def)

text \<open>
  C4.  The comment of \<open>NewProxy\<close> says that URLs are rewritten to the scheme, host and base
  path of the target.  \<open>getRequestURL\<close> keeps the scheme and the host of the target, and
  takes the path, the raw query and the fragment of the request; the path of the target
  is overwritten.  For the target \<open>ws://127.0.0.1:9001/base\<close> and a request for
  \<open>/chat?room=1#top\<close> the URL is \<open>ws://127.0.0.1:9001/chat?room=1#top\<close>: the base path
  \<open>/base\<close> is gone.
\<close>

theorem getRequestURL_drops_base_path:
  "getRequestURL (url_9001 \<lparr> Path := ''/base'' \<rparr>) request_chat =
     \<lparr> Scheme = ''ws'', Opaque = [], User = None, Host = ''127.0.0.1:9001'',
       Path = ''/chat'', RawPath = [], ForceQuery = False, RawQuery = ''room=1'',
       Fragment = ''top'' \<rparr> \<and>
   \<not> prefix ''/base'' (Path (getRequestURL (url_9001 \<lparr> Path := ''/base'' \<rparr>) request_chat))"
  by (simp add: getRequestURL_def url_9001_def request_chat_def)

section \<open>The header of the dial\<close>

lemma canonical_keys:
  "CanonicalHeaderKey ''Origin'' = ''Origin''"
  "CanonicalHeaderKey ''Sec-WebSocket-Protocol'' = ''Sec-Websocket-Protocol''"
  "CanonicalHeaderKey ''Sec-Websocket-Protocol'' = ''Sec-Websocket-Protocol''"
  "CanonicalHeaderKey ''Cookie'' = ''Cookie''"
  "CanonicalHeaderKey ''Set-Cookie'' = ''Set-Cookie''"
  "CanonicalHeaderKey ''X-Forwarded-For'' = ''X-Forwarded-For''"
  "CanonicalHeaderKey ''X-Forwarded-Proto'' = ''X-Forwarded-Proto''"
  by code_simp+

lemma header_Add_apply:
  "header_Add key v h k =
     (if k = CanonicalHeaderKey key then Some (header_values h (CanonicalHeaderKey key) @ [v])
      else h k)"
  by (simp add: header_Add_def)

lemma header_Set_apply:
  "header_Set key v h k = (if k = CanonicalHeaderKey key then Some [v] else h k)"
  by (simp add: header_Set_def)

lemma header_Add_all_apply:
  "foldl (\<lambda>h v. header_Add key v h) h vs k =
     (if k = CanonicalHeaderKey key \<and> vs \<noteq> []
      then Some (header_values h (CanonicalHeaderKey key) @ vs) else h k)"
proof (induction vs arbitrary: h)
  case Nil
  then show ?case by simp
next
  case (Cons v vs)
  have "header_values (header_Add key v h) (CanonicalHeaderKey key) =
      header_values h (CanonicalHeaderKey key) @ [v]"
    by (simp add: header_values_def header_Add_apply)
  then show ?case
    by (simp only: foldl_Cons Cons.IH) (simp add: header_Add_apply)
qed

lemma forwardedHeader_apply:
  "forwardedHeader env req k =
    (if k = ''X-Forwarded-Proto'' then Some [if TLS req = None then ''http'' else ''https'']
     else if k = ''X-Forwarded-For'' then
       (case SplitHostPort env (RemoteAddr req) of
          None \<Rightarrow> None
        | Some (clientIP, port) \<Rightarrow>
            Some [case Header req ''X-Forwarded-For'' of
                    None \<Rightarrow> clientIP
                  | Some prior \<Rightarrow> strings_Join prior '', '' @ '', '' @ clientIP])
     else if k = ''Cookie'' \<and> header_values (Header req) ''Cookie'' \<noteq> [] then
       Some (header_values (Header req) ''Cookie'')
     else if k = ''Sec-Websocket-Protocol'' \<and>
         header_values (Header req) ''Sec-Websocket-Protocol'' \<noteq> [] then
       Some (header_values (Header req) ''Sec-Websocket-Protocol'')
     else if k = ''Origin'' \<and> header_Get (Header req) ''Origin'' \<noteq> [] then
       Some [header_Get (Header req) ''Origin'']
     else None)"
proof -
  define origin where "origin = header_Get (Header req) ''Origin''"
  define P where "P = header_values (Header req) ''Sec-Websocket-Protocol''"
  define C where "C = header_values (Header req) ''Cookie''"
  define h1 where "h1 = (if origin \<noteq> [] then header_Add ''Origin'' origin Map.empty else Map.empty)"
  define h2 where "h2 = foldl (\<lambda>h prot. header_Add ''Sec-WebSocket-Protocol'' prot h) h1 P"
  define h3 where "h3 = foldl (\<lambda>h cookie. header_Add ''Cookie'' cookie h) h2 C"
  define h4 where "h4 = (case SplitHostPort env (RemoteAddr req) of
                  None \<Rightarrow> h3
                | Some (clientIP, port) \<Rightarrow>
                    header_Set ''X-Forwarded-For''
                      (case Header req ''X-Forwarded-For'' of
                         Some prior \<Rightarrow> strings_Join prior '', '' @ '', '' @ clientIP
                       | None \<Rightarrow> clientIP) h3)"
  define h5 where "h5 = header_Set ''X-Forwarded-Proto'' ''http'' h4"
  define h6 where "h6 = (if TLS req \<noteq> None then header_Set ''X-Forwarded-Proto'' ''https'' h5 else h5)"
  have all: "forwardedHeader env req = h6"
    unfolding forwardedHeader_def Let_def h6_def h5_def h4_def h3_def h2_def h1_def
      origin_def P_def C_def canonical_keys ..
  have a1: "h1 x = (if x = ''Origin'' \<and> origin \<noteq> [] then Some [origin] else None)" for x
    by (simp add: h1_def header_Add_apply canonical_keys header_values_def)
  have v1: "header_values h1 ''Sec-Websocket-Protocol'' = []"
    by (simp add: header_values_def a1)
  have a2: "h2 x = (if x = ''Sec-Websocket-Protocol'' \<and> P \<noteq> [] then Some P else h1 x)" for x
    by (simp add: h2_def header_Add_all_apply canonical_keys v1)
  have v2: "header_values h2 ''Cookie'' = []"
    by (simp add: header_values_def a2 a1)
  have a3: "h3 x = (if x = ''Cookie'' \<and> C \<noteq> [] then Some C else h2 x)" for x
    by (simp add: h3_def header_Add_all_apply canonical_keys v2)
  have a4: "h4 x = (if x = ''X-Forwarded-For'' then
       (case SplitHostPort env (RemoteAddr req) of
          None \<Rightarrow> None
        | Some (clientIP, port) \<Rightarrow>
            Some [case Header req ''X-Forwarded-For'' of
                    None \<Rightarrow> clientIP
                  | Some prior \<Rightarrow> strings_Join prior '', '' @ '', '' @ clientIP])
       else h3 x)" for x
  proof (cases "SplitHostPort env (RemoteAddr req)")
    case None
    then show ?thesis by (simp add: h4_def a3 a2 a1)
  next
    case (Some a)
    then show ?thesis
      by (cases a) (simp add: h4_def header_Set_apply canonical_keys)
  qed
  have a5: "h5 x = (if x = ''X-Forwarded-Proto'' then Some [''http''] else h4 x)" for x
    by (simp add: h5_def header_Set_apply canonical_keys)
  have a6: "h6 x = (if x = ''X-Forwarded-Proto'' then
       Some [if TLS req = None then ''http'' else ''https''] else h4 x)" for x
    by (simp add: h6_def a5 header_Set_apply canonical_keys)
  show ?thesis
    unfolding all a6 a4 a3 a2 a1 origin_def P_def C_def by simp
qed

lemma sameConfig_refl [simp]: "sameConfig w w"
  by (simp add: sameConfig_def)

lemma selectLoop_config:
  "selectLoop raw N selectcnt w = Inr (index, w') \<Longrightarrow> sameConfig w w'"
proof (induction raw N selectcnt w rule: selectLoop.induct)
  case (1 raw N selectcnt w)
  let ?w1 = "w \<lparr> ReqCount := wrap64 (ReqCount w + 1) \<rparr>"
  let ?i = "go_rem (ReqCount ?w1) N"
  show ?case
  proof (cases "N \<le> selectcnt")
    case True
    then show ?thesis using "1.prems"
      by (subst (asm) selectLoop.simps) (auto simp: Intn_def split: if_splits)
  next
    case False
    show ?thesis
    proof (cases "N = 0")
      case True
      then show ?thesis using "1.prems" False
        by (subst (asm) selectLoop.simps) simp
    next
      case N0: False
      show ?thesis
      proof (cases "DesolateBackend ?w1 ?i")
        case None
        then show ?thesis using "1.prems" False N0
          by (subst (asm) selectLoop.simps) (auto simp: Let_def sameConfig_def)
      next
        case (Some waitcnt)
        show ?thesis
        proof (cases "waitcnt \<le> 0")
          case True
          then show ?thesis using "1.prems" False N0 Some
            by (subst (asm) selectLoop.simps) (auto simp: Let_def sameConfig_def)
        next
          case pos: False
          let ?w2 = "?w1 \<lparr> DesolateBackend := (DesolateBackend ?w1)(?i \<mapsto> waitcnt - 1) \<rparr>"
          have "selectLoop raw N (selectcnt + 1) ?w2 = Inr (index, w')"
            using "1.prems" False N0 Some pos
            by (subst (asm) selectLoop.simps) (simp add: Let_def)
          then have "sameConfig ?w2 w'"
            using "1.IH" [OF False N0 refl refl Some pos] by simp
          then show ?thesis by (simp add: sameConfig_def)
        qed
      qed
    qed
  qed
qed

lemma requestHeader_config: "sameConfig w w' \<Longrightarrow> requestHeader env w' req = requestHeader env w req"
  by (simp add: requestHeader_def sameConfig_def)

lemma upgradeHeader_apply:
  "upgradeHeader resp k =
     (if (k = ''Sec-Websocket-Protocol'' \<or> k = ''Set-Cookie'') \<and> header_Get resp k \<noteq> []
      then Some [header_Get resp k] else None)"
  by (simp add: upgradeHeader_def Let_def header_Set_apply canonical_keys)

lemma connectBackend_dials:
  assumes "connectBackend env w req = Inr (r, w', evs)"
  shows "\<exists>dialer u. evs = [EvDial dialer u (requestHeader env w req)]"
proof -
  obtain index w1 where sel: "selectBackend (draw env) w = Inr (index, w1)"
    using assms by (auto simp: connectBackend_def split: sum.splits)
  have cfg: "sameConfig w w1" using sel unfolding selectBackend_def by (rule selectLoop_config)
  show ?thesis
    using assms
    by (auto simp: connectBackend_def sel Let_def requestHeader_config [OF cfg]
        split: if_splits dial_result.splits)
qed

text \<open>
  C5, as amended.  The header built for the dial has: \<open>Origin\<close>, the first value of the
  request's when that is not empty; every value of \<open>Sec-WebSocket-Protocol\<close> (stored under
  the canonical key \<open>Sec-Websocket-Protocol\<close>) in the request's order; every value of
  \<open>Cookie\<close>; \<open>X-Forwarded-For\<close> only when the \<open>RemoteAddr\<close> of the request splits into a
  host and a port: then the prior values joined by a comma and a space, then a comma, a
  space and the peer's IP, or the peer's IP alone when the request has no such header;
  \<open>X-Forwarded-Proto\<close>, \<open>https\<close> when the request has a TLS state and \<open>http\<close> when not;
  and no other key.  The director is applied to this header, and its result is the header
  of the one dial that \<open>connectBackend\<close> makes.
\<close>

theorem forwarded_request_header:
  "forwardedHeader env req ''Origin'' =
       (if header_Get (Header req) ''Origin'' = [] then None
        else Some [header_Get (Header req) ''Origin'']) \<and>
     forwardedHeader env req ''Sec-Websocket-Protocol'' =
       (if header_values (Header req) ''Sec-Websocket-Protocol'' = [] then None
        else Some (header_values (Header req) ''Sec-Websocket-Protocol'')) \<and>
     forwardedHeader env req ''Cookie'' =
       (if header_values (Header req) ''Cookie'' = [] then None
        else Some (header_values (Header req) ''Cookie'')) \<and>
     forwardedHeader env req ''X-Forwarded-For'' =
       (case SplitHostPort env (RemoteAddr req) of
          None \<Rightarrow> None
        | Some (clientIP, port) \<Rightarrow>
            Some [case Header req ''X-Forwarded-For'' of
                    None \<Rightarrow> clientIP
                  | Some prior \<Rightarrow> strings_Join prior '', '' @ '', '' @ clientIP]) \<and>
     forwardedHeader env req ''X-Forwarded-Proto'' =
       Some [if TLS req = None then ''http'' else ''https''] \<and>
     dom (forwardedHeader env req) \<subseteq>
       {''Origin'', ''Sec-Websocket-Protocol'', ''Cookie'', ''X-Forwarded-For'', ''X-Forwarded-Proto''} \<and>
     requestHeader env w req =
       (case Director w of
          None \<Rightarrow> forwardedHeader env req
        | Some director \<Rightarrow> director req (forwardedHeader env req)) \<and>
     (\<forall>r w' evs. connectBackend env w req = Inr (r, w', evs) \<longrightarrow>
        (\<exists>dialer u. evs = [EvDial dialer u (requestHeader env w req)]))"
proof -
  have "dom (forwardedHeader env req) \<subseteq>
       {''Origin'', ''Sec-Websocket-Protocol'', ''Cookie'', ''X-Forwarded-For'', ''X-Forwarded-Proto''}"
  proof
    fix k assume "k \<in> dom (forwardedHeader env req)"
    then have "forwardedHeader env req k \<noteq> None" by auto
    then show "k \<in> {''Origin'', ''Sec-Websocket-Protocol'', ''Cookie'', ''X-Forwarded-For'',
        ''X-Forwarded-Proto''}"
      unfolding forwardedHeader_apply by (simp split: if_splits)
  qed
  moreover have "\<forall>r w' evs. connectBackend env w req = Inr (r, w', evs) \<longrightarrow>
        (\<exists>dialer u. evs = [EvDial dialer u (requestHeader env w req)])"
    using connectBackend_dials by blast
  ultimately show ?thesis
    by (simp add: forwardedHeader_apply requestHeader_def)
qed

theorem forwarded_request_header_witness:
  "forwardedHeader world_up request_chat ''X-Forwarded-For'' = Some [''1.2.3.4, 5.6.7.8''] \<and>
   forwardedHeader world_up request_chat ''Sec-Websocket-Protocol'' = Some [''v1'', ''v2''] \<and>
   forwardedHeader world_up request_chat ''X-Forwarded-Proto'' = Some [''http''] \<and>
   forwardedHeader world_up request_chat ''Origin'' = None \<and>
   (case connectBackend world_up proxy2 request_chat of
      Inr (r, w', evs) \<Rightarrow>
        evs = [EvDial DefaultDialer (getRequestURL url_9002 request_chat)
                 (forwardedHeader world_up request_chat)]
    | Inl p \<Rightarrow> False)"
proof -
  have run: "connectBackend world_up proxy2 request_chat =
      Inr (Inr (1, upgradeHeader [''Sec-Websocket-Protocol'' \<mapsto> [''v1''], ''Server'' \<mapsto> [''backend'']]),
           proxy2 \<lparr> ReqCount := 1, DesolateBackend := [1 \<mapsto> 0] \<rparr>,
           [EvDial DefaultDialer (getRequestURL url_9002 request_chat)
              (requestHeader world_up proxy2 request_chat)])"
    by (simp add: connectBackend_def selectBackend_def selectLoop.simps proxy2_def AddBackend_def
        NewProxy_def world_up_def wrap64_def go_rem_def getRequestURL_def url_9002_def
        url_9001_def requestHeader_def)
  have dir: "Director proxy2 = None" by (simp add: proxy2_def AddBackend_def NewProxy_def)
  have rh: "requestHeader world_up proxy2 request_chat = forwardedHeader world_up request_chat"
    by (simp add: requestHeader_def dir)
  have v1: "header_Get (Header request_chat) ''Origin'' = []"
    by (simp add: request_chat_def header_Get_def header_values_def canonical_keys)
  have v2: "header_values (Header request_chat) ''Sec-Websocket-Protocol'' = [''v1'', ''v2'']"
    by (simp add: request_chat_def header_values_def)
  have v3: "SplitHostPort world_up (RemoteAddr request_chat) = Some (''5.6.7.8'', ''4711'')"
    by (simp add: world_up_def splitExample_def request_chat_def)
  have v4: "Header request_chat ''X-Forwarded-For'' = Some [''1.2.3.4'']"
    by (simp add: request_chat_def)
  have v5: "TLS request_chat = None"
    by (simp add: request_chat_def)
  from forwarded_request_header [of world_up request_chat proxy2]
  show ?thesis
    by (simp add: run rh v1 v2 v3 v4 v5)
qed

text \<open>
  The claim as stated fails for a request whose peer address has no port: the request has
  the header \<open>X-Forwarded-For: 1.2.3.4\<close>, and the header of the dial has no
  \<open>X-Forwarded-For\<close> at all.
\<close>

theorem forwarded_for_absent_counterexample:
  "Header request_unix ''X-Forwarded-For'' = Some [''1.2.3.4''] \<and>
   SplitHostPort world_up (RemoteAddr request_unix) = None \<and>
   forwardedHeader world_up request_unix ''X-Forwarded-For'' = None \<and>
   requestHeader world_up proxy2 request_unix ''X-Forwarded-For'' = None"
  by (simp add: forwardedHeader_apply requestHeader_def request_unix_def request_chat_def
      world_up_def splitExample_def proxy2_def AddBackend_def NewProxy_def)

section \<open>One attempt: connectBackend\<close>

lemma connectBackend_returns:
  assumes L: "int (length (Backends w)) = N" and pos: "0 < N"
    and c: "0 \<le> ReqCount w" "ReqCount w + N < 2 ^ 63"
  shows "\<exists>index w1. selectBackend (draw env) w = Inr (index, w1) \<and> 0 \<le> index \<and> index < N \<and>
      sameConfig w w1 \<and> ReqCount w \<le> ReqCount w1 \<and> ReqCount w1 \<le> ReqCount w + N \<and>
      connectBackend env w req =
        (case Dial env (case Dialer w of None \<Rightarrow> DefaultDialer | Some d \<Rightarrow> d)
                ((Backends w ! nat index) req) (requestHeader env w req) of
           DialError err \<Rightarrow>
             Inr (Inl err, w1 \<lparr> DesolateBackend := (DesolateBackend w1)(index \<mapsto> 5) \<rparr>,
                  [EvDial (case Dialer w of None \<Rightarrow> DefaultDialer | Some d \<Rightarrow> d)
                     ((Backends w ! nat index) req) (requestHeader env w req)])
         | DialOK connBackend resp \<Rightarrow>
             Inr (Inr (connBackend, upgradeHeader resp),
                  w1 \<lparr> DesolateBackend := (DesolateBackend w1)(index \<mapsto> 0) \<rparr>,
                  [EvDial (case Dialer w of None \<Rightarrow> DefaultDialer | Some d \<Rightarrow> d)
                     ((Backends w ! nat index) req) (requestHeader env w req)]))"
proof -
  have room: "ReqCount w + (N - 0) < 2 ^ 63" using c(2) by simp
  obtain index w1 where sel: "selectLoop (draw env) N 0 w = Inr (index, w1)"
    and rng: "0 \<le> index" "index < N"
    and cnt: "ReqCount w \<le> ReqCount w1" "ReqCount w1 \<le> ReqCount w + (N - 0)"
    and cfg: "sameConfig w w1"
    using selectLoop_returns [OF pos _ c(1) room, of "draw env"] pos by auto
  have sel': "selectBackend (draw env) w = Inr (index, w1)"
    using sel by (simp add: selectBackend_def L)
  have B: "Backends w1 = Backends w" and D: "Dialer w1 = Dialer w"
    using cfg by (simp_all add: sameConfig_def)
  have inrange: "\<not> (index < 0 \<or> int (length (Backends w1)) \<le> index)"
    using rng by (simp add: B L)
  have "connectBackend env w req =
        (case Dial env (case Dialer w of None \<Rightarrow> DefaultDialer | Some d \<Rightarrow> d)
                ((Backends w ! nat index) req) (requestHeader env w req) of
           DialError err \<Rightarrow>
             Inr (Inl err, w1 \<lparr> DesolateBackend := (DesolateBackend w1)(index \<mapsto> 5) \<rparr>,
                  [EvDial (case Dialer w of None \<Rightarrow> DefaultDialer | Some d \<Rightarrow> d)
                     ((Backends w ! nat index) req) (requestHeader env w req)])
         | DialOK connBackend resp \<Rightarrow>
             Inr (Inr (connBackend, upgradeHeader resp),
                  w1 \<lparr> DesolateBackend := (DesolateBackend w1)(index \<mapsto> 0) \<rparr>,
                  [EvDial (case Dialer w of None \<Rightarrow> DefaultDialer | Some d \<Rightarrow> d)
                     ((Backends w ! nat index) req) (requestHeader env w req)]))"
    unfolding connectBackend_def sel'
    using inrange by (simp add: Let_def B D requestHeader_config [OF cfg])
  with sel' rng cnt cfg show ?thesis by auto
qed

text \<open>
  C6.  In a pool of at least one backend (the counter not negative and not overflowing),
  \<open>connectBackend\<close> selects an index of the pool and dials that backend once.  When the
  dial fails it returns the error of the dial, and the skip budget of that index is 5; it
  does not dial again.  When the dial succeeds the budget of that index is 0, and the
  header returned has no key but \<open>Sec-Websocket-Protocol\<close> and \<open>Set-Cookie\<close>, each with
  what \<open>Get\<close> gives for it on the header of the handshake response, when that is not
  empty.
\<close>

theorem connectBackend_marks_backend:
  assumes "1 \<le> length (Backends w)" "0 \<le> ReqCount w"
    "ReqCount w + int (length (Backends w)) < 2 ^ 63"
  shows "\<exists>index w1 dialer url hdr.
      selectBackend (draw env) w = Inr (index, w1) \<and>
      0 \<le> index \<and> index < int (length (Backends w)) \<and> url = (Backends w ! nat index) req \<and>
      (\<forall>err. Dial env dialer url hdr = DialError err \<longrightarrow>
         connectBackend env w req =
           Inr (Inl err, w1 \<lparr> DesolateBackend := (DesolateBackend w1)(index \<mapsto> 5) \<rparr>,
                [EvDial dialer url hdr])) \<and>
      (\<forall>connBackend resp. Dial env dialer url hdr = DialOK connBackend resp \<longrightarrow>
         (\<exists>upgradeHdr.
            connectBackend env w req =
              Inr (Inr (connBackend, upgradeHdr),
                   w1 \<lparr> DesolateBackend := (DesolateBackend w1)(index \<mapsto> 0) \<rparr>,
                   [EvDial dialer url hdr]) \<and>
            dom upgradeHdr \<subseteq> {''Sec-Websocket-Protocol'', ''Set-Cookie''} \<and>
            upgradeHdr ''Sec-Websocket-Protocol'' =
              (if header_Get resp ''Sec-Websocket-Protocol'' = [] then None
               else Some [header_Get resp ''Sec-Websocket-Protocol'']) \<and>
            upgradeHdr ''Set-Cookie'' =
              (if header_Get resp ''Set-Cookie'' = [] then None
               else Some [header_Get resp ''Set-Cookie''])))"
proof -
  define N where "N = int (length (Backends w))"
  have pos: "0 < N" unfolding N_def using assms(1) by linarith
  have room: "ReqCount w + N < 2 ^ 63" using assms(3) by (simp add: N_def)
  define dialer where "dialer = (case Dialer w of None \<Rightarrow> DefaultDialer | Some d \<Rightarrow> d)"
  define hdr where "hdr = requestHeader env w req"
  obtain index w1 where sel: "selectBackend (draw env) w = Inr (index, w1)"
    and rng: "0 \<le> index" "index < N"
    and cb: "connectBackend env w req =
        (case Dial env dialer ((Backends w ! nat index) req) hdr of
           DialError err \<Rightarrow>
             Inr (Inl err, w1 \<lparr> DesolateBackend := (DesolateBackend w1)(index \<mapsto> 5) \<rparr>,
                  [EvDial dialer ((Backends w ! nat index) req) hdr])
         | DialOK connBackend resp \<Rightarrow>
             Inr (Inr (connBackend, upgradeHeader resp),
                  w1 \<lparr> DesolateBackend := (DesolateBackend w1)(index \<mapsto> 0) \<rparr>,
                  [EvDial dialer ((Backends w ! nat index) req) hdr]))"
    using connectBackend_returns [OF N_def [symmetric] pos assms(2) room, of env req]
    unfolding dialer_def hdr_def by blast
  have dom: "dom (upgradeHeader resp) \<subseteq> {''Sec-Websocket-Protocol'', ''Set-Cookie''}" for resp
  proof
    fix k assume "k \<in> dom (upgradeHeader resp)"
    then have "upgradeHeader resp k \<noteq> None" by auto
    then show "k \<in> {''Sec-Websocket-Protocol'', ''Set-Cookie''}"
      unfolding upgradeHeader_apply by (simp split: if_splits)
  qed
  have ok: "\<exists>upgradeHdr.
            connectBackend env w req =
              Inr (Inr (connBackend, upgradeHdr),
                   w1 \<lparr> DesolateBackend := (DesolateBackend w1)(index \<mapsto> 0) \<rparr>,
                   [EvDial dialer ((Backends w ! nat index) req) hdr]) \<and>
            dom upgradeHdr \<subseteq> {''Sec-Websocket-Protocol'', ''Set-Cookie''} \<and>
            upgradeHdr ''Sec-Websocket-Protocol'' =
              (if header_Get resp ''Sec-Websocket-Protocol'' = [] then None
               else Some [header_Get resp ''Sec-Websocket-Protocol'']) \<and>
            upgradeHdr ''Set-Cookie'' =
              (if header_Get resp ''Set-Cookie'' = [] then None
               else Some [header_Get resp ''Set-Cookie''])"
    if "Dial env dialer ((Backends w ! nat index) req) hdr = DialOK connBackend resp"
    for connBackend resp
    using that cb dom [of resp]
    by (intro exI [of _ "upgradeHeader resp"]) (simp add: upgradeHeader_apply)
  have bad: "connectBackend env w req =
           Inr (Inl err, w1 \<lparr> DesolateBackend := (DesolateBackend w1)(index \<mapsto> 5) \<rparr>,
                [EvDial dialer ((Backends w ! nat index) req) hdr])"
    if "Dial env dialer ((Backends w ! nat index) req) hdr = DialError err" for err
    using that cb by simp
  show ?thesis
    unfolding N_def [symmetric]
    using sel rng ok bad by blast
qed

lemma proxy2_fields:
  "length (Backends proxy2) = 2" "ReqCount proxy2 = 0" "DesolateBackend proxy2 = Map.empty"
  "Backends proxy2 = [getRequestURL url_9001, getRequestURL url_9002]" "Dialer proxy2 = None"
  "Director proxy2 = None" "Upgrader proxy2 = None"
  by (simp_all add: proxy2_def AddBackend_def NewProxy_def)

lemma select_proxy2: "selectBackend 0 proxy2 = Inr (1, proxy2 \<lparr> ReqCount := 1 \<rparr>)"
  by (simp add: selectBackend_def selectLoop.simps proxy2_fields wrap64_def go_rem_def)

theorem connectBackend_marks_backend_witness:
  "(case connectBackend world_up proxy2 request_chat of
      Inr (Inr (c, U), w', evs) \<Rightarrow>
        c = 1 \<and> DesolateBackend w' 1 = Some 0 \<and> U ''Sec-Websocket-Protocol'' = Some [''v1''] \<and>
        U ''Server'' = None \<and> length evs = 1
    | _ \<Rightarrow> False) \<and>
   (case connectBackend world_down proxy2 request_chat of
      Inr (Inl err, w', evs) \<Rightarrow> err = refused \<and> DesolateBackend w' 1 = Some 5 \<and> length evs = 1
    | _ \<Rightarrow> False)"
proof -
  have h1: "1 \<le> length (Backends proxy2)" by (simp add: proxy2_fields)
  have h2: "0 \<le> ReqCount proxy2" by (simp add: proxy2_fields)
  have h3: "ReqCount proxy2 + int (length (Backends proxy2)) < 2 ^ 63" by (simp add: proxy2_fields)
  have d1 [simp]: "draw world_up = 0" "draw world_down = 0"
    by (simp_all add: world_up_def world_down_def)
  have up: "Dial world_up d (getRequestURL url_9002 request_chat) h =
      DialOK 1 [''Sec-Websocket-Protocol'' \<mapsto> [''v1''], ''Server'' \<mapsto> [''backend'']]" for d h
    by (simp add: world_up_def getRequestURL_def url_9002_def url_9001_def)
  have down: "Dial world_down d u h = DialError refused" for d u h
    by (simp add: world_down_def)
  from connectBackend_marks_backend [OF h1 h2 h3, of world_up request_chat]
       connectBackend_marks_backend [OF h1 h2 h3, of world_down request_chat]
  show ?thesis
    by (simp add: select_proxy2 proxy2_fields up down)
       (auto simp: header_Get_def header_values_def canonical_keys)
qed

section \<open>All attempts: tryGetBackendConn and ServeHTTP\<close>

lemma tryLoop_result:
  "length (Backends w) = n \<Longrightarrow> i \<le> n \<Longrightarrow> 0 \<le> ReqCount w \<Longrightarrow>
   ReqCount w + (int n - int i) * int n < 2 ^ 63 \<Longrightarrow>
   \<exists>r w' evs. tryLoop worlds req n i w = Inr (r, w', evs) \<and> sameConfig w w' \<and>
     (case r of
        Inl err \<Rightarrow> err = errors_New ''No backend available'' \<and> length evs = n - i \<and>
          (\<forall>j. j < n - i \<longrightarrow> dialFailed (worlds (i + j)) (evs ! j))
      | Inr (connBackend, upgradeHdr) \<Rightarrow>
          (\<exists>k. k < n - i \<and> length evs = Suc k \<and>
             (\<forall>j. j < k \<longrightarrow> dialFailed (worlds (i + j)) (evs ! j)) \<and>
             dialGave (worlds (i + k)) (evs ! k) connBackend upgradeHdr))"
proof (induction worlds req n i w rule: tryLoop.induct)
  case (1 worlds req n i w)
  note L = "1.prems"(1) and le = "1.prems"(2) and c0 = "1.prems"(3) and room = "1.prems"(4)
  show ?case
  proof (cases "i < n")
    case False
    then have "i = n" using le by simp
    then show ?thesis by (subst tryLoop.simps) simp
  next
    case True
    define N where "N = int n"
    have LN: "int (length (Backends w)) = N" by (simp add: L N_def)
    have pos: "0 < N" using True by (simp add: N_def)
    have "1 \<le> int n - int i" using True by simp
    then have "1 * N \<le> (int n - int i) * N" using pos by (intro mult_right_mono) simp_all
    then have room1: "ReqCount w + N < 2 ^ 63" using room by (simp add: N_def)
    define dialer where "dialer = (case Dialer w of None \<Rightarrow> DefaultDialer | Some d \<Rightarrow> d)"
    define hdr where "hdr = requestHeader (worlds i) w req"
    obtain index w1 where cfg: "sameConfig w w1"
      and cnt: "ReqCount w \<le> ReqCount w1" "ReqCount w1 \<le> ReqCount w + N"
      and cb: "connectBackend (worlds i) w req =
        (case Dial (worlds i) dialer ((Backends w ! nat index) req) hdr of
           DialError err \<Rightarrow>
             Inr (Inl err, w1 \<lparr> DesolateBackend := (DesolateBackend w1)(index \<mapsto> 5) \<rparr>,
                  [EvDial dialer ((Backends w ! nat index) req) hdr])
         | DialOK connBackend resp \<Rightarrow>
             Inr (Inr (connBackend, upgradeHeader resp),
                  w1 \<lparr> DesolateBackend := (DesolateBackend w1)(index \<mapsto> 0) \<rparr>,
                  [EvDial dialer ((Backends w ! nat index) req) hdr]))"
      using connectBackend_returns [OF LN pos c0 room1, of "worlds i" req]
      unfolding dialer_def hdr_def by blast
    let ?u = "(Backends w ! nat index) req"
    let ?ev = "EvDial dialer ?u hdr"
    show ?thesis
    proof (cases "Dial (worlds i) dialer ?u hdr")
      case (DialOK connBackend resp)
      let ?w0 = "w1 \<lparr> DesolateBackend := (DesolateBackend w1)(index \<mapsto> 0) \<rparr>"
      have whole: "tryLoop worlds req n i w =
          Inr (Inr (connBackend, upgradeHeader resp), ?w0, [?ev])"
        using True by (subst tryLoop.simps) (simp add: cb DialOK)
      have gave: "dialGave (worlds i) ?ev connBackend (upgradeHeader resp)"
        by (simp add: dialGave_def DialOK)
      have cfg0: "sameConfig w ?w0"
        using cfg by (simp add: sameConfig_def)
      have "\<exists>k. k < n - i \<and> length [?ev] = Suc k \<and>
             (\<forall>j. j < k \<longrightarrow> dialFailed (worlds (i + j)) ([?ev] ! j)) \<and>
             dialGave (worlds (i + k)) ([?ev] ! k) connBackend (upgradeHeader resp)"
        using True gave by (intro exI [of _ 0]) simp
      then show ?thesis using whole cfg0 by simp
    next
      case (DialError err)
      let ?w2 = "w1 \<lparr> DesolateBackend := (DesolateBackend w1)(index \<mapsto> 5) \<rparr>"
      have step: "connectBackend (worlds i) w req = Inr (Inl err, ?w2, [?ev])"
        by (simp add: cb DialError)
      have cfg2: "sameConfig w ?w2" using cfg by (simp add: sameConfig_def)
      have failed: "dialFailed (worlds i) ?ev" by (simp add: dialFailed_def DialError)
      have L2: "length (Backends ?w2) = n" using cfg L by (simp add: sameConfig_def)
      have "(int n - int (i + 1)) * int n = (int n - int i) * int n - N"
        by (simp add: N_def algebra_simps)
      then have room2: "ReqCount ?w2 + (int n - int (i + 1)) * int n < 2 ^ 63"
        using room cnt by simp
      have "\<exists>r w' evs. tryLoop worlds req n (i + 1) ?w2 = Inr (r, w', evs) \<and> sameConfig ?w2 w' \<and>
         (case r of
            Inl err \<Rightarrow> err = errors_New ''No backend available'' \<and> length evs = n - (i + 1) \<and>
              (\<forall>j. j < n - (i + 1) \<longrightarrow> dialFailed (worlds (i + 1 + j)) (evs ! j))
          | Inr (connBackend, upgradeHdr) \<Rightarrow>
              (\<exists>k. k < n - (i + 1) \<and> length evs = Suc k \<and>
                 (\<forall>j. j < k \<longrightarrow> dialFailed (worlds (i + 1 + j)) (evs ! j)) \<and>
                 dialGave (worlds (i + 1 + k)) (evs ! k) connBackend upgradeHdr))"
        using True c0 cnt
        by (intro "1.IH" [OF True step refl refl refl L2 _ _ room2]) simp_all
      then obtain r w' evs where rest: "tryLoop worlds req n (i + 1) ?w2 = Inr (r, w', evs)"
        and cfg3: "sameConfig ?w2 w'"
        and res: "(case r of
            Inl err \<Rightarrow> err = errors_New ''No backend available'' \<and> length evs = n - (i + 1) \<and>
              (\<forall>j. j < n - (i + 1) \<longrightarrow> dialFailed (worlds (i + 1 + j)) (evs ! j))
          | Inr (connBackend, upgradeHdr) \<Rightarrow>
              (\<exists>k. k < n - (i + 1) \<and> length evs = Suc k \<and>
                 (\<forall>j. j < k \<longrightarrow> dialFailed (worlds (i + 1 + j)) (evs ! j)) \<and>
                 dialGave (worlds (i + 1 + k)) (evs ! k) connBackend upgradeHdr))"
        by blast
      have rest': "tryLoop worlds req n (Suc i) ?w2 = Inr (r, w', evs)"
        using rest by simp
      have whole: "tryLoop worlds req n i w = Inr (r, w', ?ev # evs)"
        using True by (subst tryLoop.simps) (simp add: step rest')
      have cfg4: "sameConfig w w'" using cfg2 cfg3 by (simp add: sameConfig_def)
      have shift: "dialFailed (worlds (i + j)) ((?ev # evs) ! j)"
        if "\<And>j'. j' < m \<Longrightarrow> dialFailed (worlds (i + 1 + j')) (evs ! j')" "j < Suc m" for j m
        using that failed by (cases j) simp_all
      show ?thesis
      proof (cases r)
        case (Inl e)
        then have e: "e = errors_New ''No backend available''" "length evs = n - (i + 1)"
          and f: "\<And>j. j < n - (i + 1) \<Longrightarrow> dialFailed (worlds (i + 1 + j)) (evs ! j)"
          using res by simp_all
        have "length (?ev # evs) = n - i" using e(2) True by simp
        moreover have "\<forall>j. j < n - i \<longrightarrow> dialFailed (worlds (i + j)) ((?ev # evs) ! j)"
        proof (intro allI impI)
          fix j assume "j < n - i"
          then have "j < Suc (n - (i + 1))" using True by simp
          with f show "dialFailed (worlds (i + j)) ((?ev # evs) ! j)" by (rule shift)
        qed
        ultimately show ?thesis using whole cfg4 Inl e(1) by simp
      next
        case (Inr p)
        obtain connBackend upgradeHdr where p: "p = (connBackend, upgradeHdr)" by (cases p)
        from res Inr p obtain k where k: "k < n - (i + 1)" "length evs = Suc k"
          and f: "\<And>j. j < k \<Longrightarrow> dialFailed (worlds (i + 1 + j)) (evs ! j)"
          and g: "dialGave (worlds (i + 1 + k)) (evs ! k) connBackend upgradeHdr"
          by auto
        have "Suc k < n - i" using k(1) by simp
        moreover have "length (?ev # evs) = Suc (Suc k)" using k(2) by simp
        moreover have "\<forall>j. j < Suc k \<longrightarrow> dialFailed (worlds (i + j)) ((?ev # evs) ! j)"
          using shift [OF f] by blast
        moreover have "dialGave (worlds (i + Suc k)) ((?ev # evs) ! Suc k) connBackend upgradeHdr"
          using g by simp
        ultimately have "\<exists>k. k < n - i \<and> length (?ev # evs) = Suc k \<and>
             (\<forall>j. j < k \<longrightarrow> dialFailed (worlds (i + j)) ((?ev # evs) ! j)) \<and>
             dialGave (worlds (i + k)) ((?ev # evs) ! k) connBackend upgradeHdr"
          by blast
        then show ?thesis using whole cfg4 Inr p by simp
      qed
    qed
  qed
qed

text \<open>
  C7.  \<open>tryGetBackendConn\<close> on a pool of \<open>N\<close> backends (the counter not negative and not
  overflowing) returns after at most \<open>N\<close> dials, one for each call of connectBackend.
  Either it returns a connection and upgrade header: they are what dial \<open>k\<close> gave, for some
  \<open>k < N\<close>, every dial before it failed and none was made after it.  Or it returns the
  error \<open>No backend available\<close>: then there were \<open>N\<close> dials and all failed, and
  \<open>ServeHTTP\<close> answers with \<open>http.Error\<close>, the body \<open>internal server error (code: 2)\<close>
  and the status 500, and never calls the upgrader.
\<close>

theorem tryGetBackendConn_first_success:
  assumes "0 \<le> ReqCount w"
    "ReqCount w + int (length (Backends w)) * int (length (Backends w)) < 2 ^ 63"
  shows "\<exists>r w' evs. tryGetBackendConn worlds w req = Inr (r, w', evs) \<and>
     length evs \<le> length (Backends w) \<and>
     (case r of
        Inr (connBackend, upgradeHdr) \<Rightarrow>
          (\<exists>k. k < length (Backends w) \<and> length evs = Suc k \<and>
             (\<forall>j. j < k \<longrightarrow> dialFailed (worlds j) (evs ! j)) \<and>
             dialGave (worlds k) (evs ! k) connBackend upgradeHdr)
      | Inl err \<Rightarrow>
          err = errors_New ''No backend available'' \<and> length evs = length (Backends w) \<and>
          (\<forall>j. j < length (Backends w) \<longrightarrow> dialFailed (worlds j) (evs ! j)) \<and>
          ServeHTTP worlds upgrade w req =
            Inr (w', evs @ [EvHttpError ''internal server error (code: 2)'' 500]) \<and>
          (\<forall>u h. EvUpgrade u h \<notin> set (evs @ [EvHttpError ''internal server error (code: 2)'' 500])))"
proof -
  define n where "n = length (Backends w)"
  have room: "ReqCount w + (int n - int 0) * int n < 2 ^ 63" using assms(2) by (simp add: n_def)
  obtain r w' evs where run: "tryLoop worlds req n 0 w = Inr (r, w', evs)"
    and res: "(case r of
        Inl err \<Rightarrow> err = errors_New ''No backend available'' \<and> length evs = n - 0 \<and>
          (\<forall>j. j < n - 0 \<longrightarrow> dialFailed (worlds (0 + j)) (evs ! j))
      | Inr (connBackend, upgradeHdr) \<Rightarrow>
          (\<exists>k. k < n - 0 \<and> length evs = Suc k \<and>
             (\<forall>j. j < k \<longrightarrow> dialFailed (worlds (0 + j)) (evs ! j)) \<and>
             dialGave (worlds (0 + k)) (evs ! k) connBackend upgradeHdr))"
    using tryLoop_result [OF n_def [symmetric] _ assms(1) room, of worlds req] by auto
  have run': "tryGetBackendConn worlds w req = Inr (r, w', evs)"
    using run by (simp add: tryGetBackendConn_def n_def)
  show ?thesis
  proof (cases r)
    case (Inl err)
    then have e: "err = errors_New ''No backend available''" "length evs = n"
      and f: "\<And>j. j < n \<Longrightarrow> dialFailed (worlds j) (evs ! j)"
      using res by simp_all
    have serve: "ServeHTTP worlds upgrade w req =
        Inr (w', evs @ [EvHttpError ''internal server error (code: 2)'' 500])"
      by (simp add: ServeHTTP_def run' Inl)
    have "EvUpgrade u h \<notin> set evs" for u h
    proof
      assume "EvUpgrade u h \<in> set evs"
      then obtain j where "j < length evs" "evs ! j = EvUpgrade u h"
        by (auto simp: in_set_conv_nth)
      then show False using f [of j] e(2) by (simp add: dialFailed_def)
    qed
    then have "\<forall>u h. EvUpgrade u h \<notin> set (evs @ [EvHttpError ''internal server error (code: 2)'' 500])"
      by simp
    then show ?thesis
      unfolding n_def [symmetric] using run' Inl e f serve by simp
  next
    case (Inr p)
    obtain connBackend upgradeHdr where p: "p = (connBackend, upgradeHdr)" by (cases p)
    from res Inr p obtain k where k: "k < n" "length evs = Suc k"
      "\<forall>j. j < k \<longrightarrow> dialFailed (worlds j) (evs ! j)"
      "dialGave (worlds k) (evs ! k) connBackend upgradeHdr"
      by auto
    have "length evs \<le> n" using k(1,2) by simp
    then show ?thesis
      unfolding n_def [symmetric] using run' Inr p k by auto
  qed
qed

theorem tryGetBackendConn_first_success_witness:
  "\<exists>w' evs. tryGetBackendConn (\<lambda>i. world_down) proxy2 request_chat =
       Inr (Inl (errors_New ''No backend available''), w', evs) \<and> length evs = 2 \<and>
     ServeHTTP (\<lambda>i. world_down) (\<lambda>u r h. Inl refused) proxy2 request_chat =
       Inr (w', evs @ [EvHttpError ''internal server error (code: 2)'' 500])"
proof -
  have h1: "0 \<le> ReqCount proxy2" by (simp add: proxy2_fields)
  have h2: "ReqCount proxy2 + int (length (Backends proxy2)) * int (length (Backends proxy2)) < 2 ^ 63"
    by (simp add: proxy2_fields)
  have never: "\<not> dialGave world_down e c U" for e c U
    by (cases e) (simp_all add: dialGave_def world_down_def)
  from tryGetBackendConn_first_success [OF h1 h2, of "\<lambda>i. world_down" request_chat "\<lambda>u r h. Inl refused"]
  obtain r w' evs where run: "tryGetBackendConn (\<lambda>i. world_down) proxy2 request_chat = Inr (r, w', evs)"
    and res: "(case r of
        Inr (connBackend, upgradeHdr) \<Rightarrow>
          (\<exists>k. k < length (Backends proxy2) \<and> length evs = Suc k \<and>
             (\<forall>j. j < k \<longrightarrow> dialFailed world_down (evs ! j)) \<and>
             dialGave world_down (evs ! k) connBackend upgradeHdr)
      | Inl err \<Rightarrow>
          err = errors_New ''No backend available'' \<and> length evs = length (Backends proxy2) \<and>
          (\<forall>j. j < length (Backends proxy2) \<longrightarrow> dialFailed world_down (evs ! j)) \<and>
          ServeHTTP (\<lambda>i. world_down) (\<lambda>u r h. Inl refused) proxy2 request_chat =
            Inr (w', evs @ [EvHttpError ''internal server error (code: 2)'' 500]) \<and>
          (\<forall>u h. EvUpgrade u h \<notin> set (evs @ [EvHttpError ''internal server error (code: 2)'' 500])))"
    by blast
  show ?thesis
  proof (cases r)
    case (Inl err)
    then show ?thesis using run res by (simp add: proxy2_fields)
  next
    case (Inr p)
    then show ?thesis using res never by (cases p) auto
  qed
qed

text \<open>
  C10.  With no backend registered the loop of \<open>tryGetBackendConn\<close> does not run: the
  result is the error \<open>No backend available\<close> with the proxy unchanged and nothing dialled,
  and \<open>ServeHTTP\<close> answers 500 and does not panic.  \<open>selectBackend\<close> is not called; on the
  empty pool it would panic in \<open>Intn\<close>.
\<close>

theorem empty_pool_no_backend:
  assumes "Backends w = []"
  shows "tryGetBackendConn worlds w req = Inr (Inl (errors_New ''No backend available''), w, []) \<and>
     ServeHTTP worlds upgrade w req =
       Inr (w, [EvHttpError ''internal server error (code: 2)'' 500]) \<and>
     selectBackend raw w = Inl IntnInvalidArgument"
  using assms
  by (simp add: tryGetBackendConn_def tryLoop.simps ServeHTTP_def selectBackend_def
      selectLoop.simps Intn_def)

theorem empty_pool_no_backend_witness:
  "ServeHTTP (\<lambda>i. world_down) (\<lambda>u r h. Inl refused) NewProxy request_chat =
     Inr (NewProxy, [EvHttpError ''internal server error (code: 2)'' 500])"
proof -
  have "Backends NewProxy = []" by (simp add: NewProxy_def)
  from empty_pool_no_backend [OF this] show ?thesis by blast
qed

section \<open>The relay tasks\<close>

lemma replicateLoop_outer:
  "replicateLoop dst src written err = (out, Some (e, e')) \<Longrightarrow> e = err"
  by (induction dst src written err rule: replicateLoop.induct)
     (auto simp: Let_def split: if_splits)

lemma relay_always_nil:
  "replicateWebsocketConn dst src [] = (written, Some errc) \<Longrightarrow> errc = [None]"
  by (auto simp: replicateWebsocketConn_def split: prod.splits option.splits dest: replicateLoop_outer)

text \<open>
  C8.  The \<open>err\<close> that a task sends on \<open>errc\<close> is the one declared before the loop.  The
  loop body declares an \<open>err\<close> of its own with \<open>:=\<close>, and the read and the write assign to
  that one, so the task sends \<open>nil\<close> whatever ended its loop.  Here the first read fails
  with a close error: the loop ends with that error, and the channel receives \<open>nil\<close>.
\<close>

theorem relay_task_sends_nil:
  "replicateWebsocketConn dst [(- 1, [], Some closed)] [] = ([], Some [None]) \<and>
   terminalError dst [(- 1, [], Some closed)] = Some (Some closed)"
  by (simp add: replicateWebsocketConn_def terminalError_def)

lemma message_simp [simp]: "message (t, m, e) = (t, m)"
  by (simp add: message_def)

lemma readOK_simp [simp]: "readOK (t, m, e) = (e = None)"
  by (simp add: readOK_def)

lemma replicateLoop_written:
  "\<exists>n. n \<le> length src \<and>
     fst (replicateLoop dst src written err) = written @ map message (take n src) \<and>
     list_all readOK (take n src) \<and>
     ((\<forall>k t m. dst k t m = None) \<longrightarrow> n = length (takeWhile readOK src))"
proof (induction dst src written err rule: replicateLoop.induct)
  case (1 dst written err)
  then show ?case by simp
next
  case (2 dst msgType msg err' src written err)
  show ?case
  proof (cases "err' \<noteq> None")
    case True
    then show ?thesis by (intro exI [of _ 0]) simp
  next
    case False
    show ?thesis
    proof (cases "dst (length written) msgType msg \<noteq> None")
      case True
      then show ?thesis using False
        by (intro exI [of _ 1]) auto
    next
      case ok: False
      from 2 [OF False refl ok] obtain n where n: "n \<le> length src"
        "fst (replicateLoop dst src (written @ [(msgType, msg)]) err) =
           (written @ [(msgType, msg)]) @ map message (take n src)"
        "list_all readOK (take n src)"
        "(\<forall>k t m. dst k t m = None) \<longrightarrow> n = length (takeWhile readOK src)"
        by blast
      show ?thesis using n False ok
        by (intro exI [of _ "Suc n"]) simp
    qed
  qed
qed

text \<open>
  C9.  The calls of \<open>WriteMessage\<close> that a relay task makes are, in order, the first \<open>n\<close>
  results of \<open>ReadMessage\<close>, each with the type and the bytes that the read returned; all
  these reads returned a message.  One write for each read, none changed, none out of
  order.  When no write fails, \<open>n\<close> is the number of messages read before the first read
  error.
\<close>

theorem relay_fidelity:
  "\<exists>n. n \<le> length src \<and>
     fst (replicateWebsocketConn dst src errc) = map message (take n src) \<and>
     list_all readOK (take n src) \<and>
     ((\<forall>k t m. dst k t m = None) \<longrightarrow> n = length (takeWhile readOK src))"
proof -
  have "fst (replicateWebsocketConn dst src errc) = fst (replicateLoop dst src [] None)"
    by (simp add: replicateWebsocketConn_def split: prod.splits option.splits)
  then show ?thesis using replicateLoop_written [of src dst "[]" None] by simp
qed

theorem relay_fidelity_witness:
  "replicateWebsocketConn (\<lambda>k t m. None) [(2, [0x00, 0xFF, 0x10], None), (- 1, [], Some closed)] [] =
     ([(2, [0x00, 0xFF, 0x10])], Some [None])"
  using relay_fidelity [of "[(2, [0x00, 0xFF, 0x10], None), (- 1, [], Some closed)]" "\<lambda>k t m. None" "[]"]
  by (simp add: replicateWebsocketConn_def)

end
